theory Spec2Isabelle
  imports Complex_Main "HOL-Library.Word" "HOL-Library.Sublist"
begin

section \<open>Go values used by dnscheck\<close>

text \<open>
  A Go \<open>string\<close> is a byte sequence: it is modelled as \<open>string\<close> (a list of 8-bit
  characters). The non-ASCII literals of \<open>main.go\<close> are written as their UTF-8 bytes.

  A Go \<open>error\<close> is either \<open>nil\<close> or a value with an \<open>Error()\<close> text and, when it was
  built by \<open>fmt.Errorf\<close> with the verb \<open>%w\<close>, the error it wraps. \<open>goerror option\<close>
  is the interface type \<open>error\<close>, \<open>None\<close> being \<open>nil\<close>.
\<close>

datatype goerror = GoError (ErrorText: string) (Unwrap: "goerror option")

text \<open>\<open>strings.HasPrefix(s, prefix)\<close>:
  \<open>len(s) >= len(prefix) && s[:len(prefix)] == prefix\<close>.\<close>

definition HasPrefix :: "string \<Rightarrow> string \<Rightarrow> bool" where
  "HasPrefix s pre = (length s \<ge> length pre \<and> take (length pre) s = pre)"

text \<open>\<open>strings.Contains(s, substr)\<close>: \<open>substr\<close> occurs in \<open>s\<close> at some offset.\<close>

fun Contains :: "string \<Rightarrow> string \<Rightarrow> bool" where
  "Contains [] substr = HasPrefix [] substr"
| "Contains (c # s) substr = (HasPrefix (c # s) substr \<or> Contains s substr)"

text \<open>\<open>fmt.Errorf(pre + "%w", err)\<close>. With a non-nil operand the result wraps it and
  its text is \<open>pre\<close> followed by the operand's text. With a nil operand \<open>fmt\<close> prints
  the bad-verb marker and the result wraps nothing.\<close>

definition Errorf_w :: "string \<Rightarrow> goerror option \<Rightarrow> goerror" where
  "Errorf_w pre err =
     (case err of
        Some e \<Rightarrow> GoError (pre @ ErrorText e) (Some e)
      | None \<Rightarrow> GoError (pre @ ''%!w(<nil>)'') None)"

text \<open>The verb \<open>%d\<close> on an \<open>int\<close>: decimal digits, with a minus sign when negative.\<close>

definition decimalDigits :: string where
  "decimalDigits = ''0123456789''"

fun digits :: "nat \<Rightarrow> string" where
  "digits n = (if n < 10 then [decimalDigits ! n]
               else digits (n div 10) @ [decimalDigits ! (n mod 10)])"

declare digits.simps [simp del]

definition formatInt :: "int \<Rightarrow> string" where
  "formatInt i = (if i < 0 then ''-'' @ digits (nat (- i)) else digits (nat i))"

text \<open>\<open>time.Duration\<close> is an \<open>int64\<close> count of nanoseconds; \<open>sint\<close> reads it.\<close>

type_synonym Duration = "64 word"

definition Second :: Duration where
  "Second = 1000000000"

text \<open>A value of type \<open>interface{}\<close> as \<open>encoding/json\<close> decodes it. A number keeps
  its JSON text.\<close>

datatype jvalue =
    JNull
  | JBool bool
  | JNumber string
  | JString string
  | JArray "jvalue list"
  | JObject "(string \<times> jvalue) list"

type_synonym IPInfoRaw = "string \<rightharpoonup> jvalue"

section \<open>Configuration and result types\<close>

record DomainConfig =
  Name :: string
  ExpectedLlcs :: "string list"

record IPCheckResult =
  IP :: string
  ActualLLC :: string
  Error :: "goerror option"

text \<open>The field \<open>Domain\<close> of \<open>DomainResult\<close> is \<open>DomainName\<close> here.\<close>

record DomainResult =
  DomainName :: string
  Expected :: "string list"
  IPResults :: "IPCheckResult list"
  IsPolluted :: bool
  Summary :: string

section \<open>aggregateDomainResult\<close>

text \<open>The inner loop over \<open>expected\<close>: \<open>matched\<close> becomes true at the first expected
  string that is a prefix of the label, and the loop breaks there.\<close>

fun matchExpected :: "string \<Rightarrow> string list \<Rightarrow> bool" where
  "matchExpected llc [] = False"
| "matchExpected llc (exp' # rest) =
     (if HasPrefix llc exp' then True else matchExpected llc rest)"

text \<open>The three variables the outer loop updates.\<close>

record agg_vars =
  ipMatches :: "bool list"
  anySuccess :: bool
  allMatch :: bool

text \<open>One pass of \<open>for i, res := range ipResults\<close>, from index \<open>i\<close> on.\<close>

fun aggregateLoop :: "string list \<Rightarrow> nat \<Rightarrow> IPCheckResult list \<Rightarrow> agg_vars \<Rightarrow> agg_vars" where
  "aggregateLoop expected i [] v = v"
| "aggregateLoop expected i (res # rest) v =
     (if Error res \<noteq> None then
        aggregateLoop expected (i + 1) rest
          (v\<lparr>ipMatches := (ipMatches v)[i := False], allMatch := False\<rparr>)
      else
        let matched = matchExpected (ActualLLC res) expected;
            v1 = v\<lparr>ipMatches := (ipMatches v)[i := matched]\<rparr>;
            v2 = (if matched then v1\<lparr>anySuccess := True\<rparr> else v1\<lparr>allMatch := False\<rparr>)
        in aggregateLoop expected (i + 1) rest v2)"

definition aggregateVars :: "string list \<Rightarrow> IPCheckResult list \<Rightarrow> agg_vars" where
  "aggregateVars expected ipResults =
     aggregateLoop expected 0 ipResults
       \<lparr>ipMatches = replicate (length ipResults) False, anySuccess = False, allMatch = True\<rparr>"

definition summaryStrictPolluted :: string where
  "summaryStrictPolluted = [CHR 0xE4, CHR 0xB8, CHR 0xA5, CHR 0xE6, CHR 0xA0, CHR 0xBC, CHR 0xE6,
     CHR 0xA8, CHR 0xA1, CHR 0xE5, CHR 0xBC, CHR 0x8F, CHR 0xEF, CHR 0xBC, CHR 0x9A, CHR 0xE9,
     CHR 0x83, CHR 0xA8, CHR 0xE5, CHR 0x88, CHR 0x86] @ '' IP '' @ [CHR 0xE4, CHR 0xB8,
     CHR 0x8D, CHR 0xE7, CHR 0xAC, CHR 0xA6, CHR 0xE5, CHR 0x90, CHR 0x88, CHR 0xE9, CHR 0xA2,
     CHR 0x84, CHR 0xE6, CHR 0x9C, CHR 0x9F]"

definition summaryStrictClean :: string where
  "summaryStrictClean = [CHR 0xE6, CHR 0x89, CHR 0x80, CHR 0xE6, CHR 0x9C,
     CHR 0x89] @ '' IP '' @ [CHR 0xE5, CHR 0x9D, CHR 0x87, CHR 0xE7, CHR 0xAC, CHR 0xA6,
     CHR 0xE5, CHR 0x90, CHR 0x88, CHR 0xE9, CHR 0xA2, CHR 0x84, CHR 0xE6, CHR 0x9C, CHR 0x9F]"

definition summaryLenientPolluted :: string where
  "summaryLenientPolluted = [CHR 0xE5, CHR 0xAE, CHR 0xBD, CHR 0xE6, CHR 0x9D, CHR 0xBE,
     CHR 0xE6, CHR 0xA8, CHR 0xA1, CHR 0xE5, CHR 0xBC, CHR 0x8F, CHR 0xEF, CHR 0xBC, CHR 0x9A,
     CHR 0xE6, CHR 0x97, CHR 0xA0, CHR 0xE4, CHR 0xBB, CHR 0xBB, CHR 0xE4, CHR 0xBD,
     CHR 0x95] @ '' IP '' @ [CHR 0xE7, CHR 0xAC, CHR 0xA6, CHR 0xE5, CHR 0x90, CHR 0x88,
     CHR 0xE9, CHR 0xA2, CHR 0x84, CHR 0xE6, CHR 0x9C, CHR 0x9F]"

definition summaryLenientClean :: string where
  "summaryLenientClean = [CHR 0xE8, CHR 0x87, CHR 0xB3, CHR 0xE5, CHR 0xB0, CHR 0x91, CHR 0xE6,
     CHR 0x9C, CHR 0x89, CHR 0xE4, CHR 0xB8, CHR 0x80, CHR 0xE4, CHR 0xB8,
     CHR 0xAA] @ '' IP '' @ [CHR 0xE7, CHR 0xAC, CHR 0xA6, CHR 0xE5, CHR 0x90, CHR 0x88,
     CHR 0xE9, CHR 0xA2, CHR 0x84, CHR 0xE6, CHR 0x9C, CHR 0x9F]"

definition aggregateDomainResult ::
  "string \<Rightarrow> string list \<Rightarrow> IPCheckResult list \<Rightarrow> bool \<Rightarrow> DomainResult" where
  "aggregateDomainResult domain expected ipResults strict =
     (let v = aggregateVars expected ipResults;
          polluted = (if strict then \<not> allMatch v else \<not> anySuccess v);
          summary =
            (if strict then (if polluted then summaryStrictPolluted else summaryStrictClean)
             else (if polluted then summaryLenientPolluted else summaryLenientClean))
      in \<lparr>DomainName = domain, Expected = expected, IPResults = ipResults,
           IsPolluted = polluted, Summary = summary\<rparr>)"

section \<open>The platform\<close>

text \<open>
  What the program receives from outside \<open>main.go\<close>: the resolver, the HTTP client,
  the JSON decoder and the \<open>%v\<close> rendering of a decoded document are library code.
  Their behaviour is a parameter of every function that calls them.
  \<^item> \<open>LookupIP name timeout\<close> is \<open>r.LookupIP(ctx, "ip4", name)\<close>: an error, or the
    \<open>String()\<close> form of each address returned.
  \<^item> \<open>Get k url timeout\<close> is the outcome of \<open>client.Get(url)\<close> when it is the
    \<open>k\<close>-th request issued (counting from 0), with the client's timeout.
  \<^item> \<open>Body\<close> of a response is what \<open>io.ReadAll(resp.Body)\<close> yields.
  \<^item> \<open>Unmarshal body\<close> is \<open>json.Unmarshal(body, &raw)\<close>.
  \<^item> \<open>FormatV data\<close> is the text \<open>%v\<close> prints for the document.
\<close>

record http_response =
  StatusCode :: int
  Body :: "goerror + string"

record platform =
  LookupIP :: "string \<Rightarrow> Duration \<Rightarrow> goerror + string list"
  Get :: "nat \<Rightarrow> string \<Rightarrow> Duration \<Rightarrow> goerror + http_response"
  Unmarshal :: "string \<Rightarrow> goerror + IPInfoRaw"
  FormatV :: "IPInfoRaw \<Rightarrow> string"

text \<open>The effects of a run that the claims speak about: waiting on the rate limiter,
  issuing an HTTP request, sleeping. \<open>gets\<close> counts the requests issued so far.\<close>

datatype event = LimiterWait | HttpGet string | Sleep Duration

record run_state =
  gets :: nat
  trace :: "event list"

section \<open>extractLLC\<close>

definition possibleKeys :: "string list" where
  "possibleKeys = [''llc'', ''isp'', ''carrier'', ''org'', ''asn_description'']"

fun probeKeys :: "IPInfoRaw \<Rightarrow> string list \<Rightarrow> string option" where
  "probeKeys data [] = None"
| "probeKeys data (key # rest) =
     (case data key of
        Some (JString str) \<Rightarrow> (if str \<noteq> [] then Some str else probeKeys data rest)
      | _ \<Rightarrow> probeKeys data rest)"

definition msgExtract :: string where
  "msgExtract = [CHR 0xE6, CHR 0x97, CHR 0xA0, CHR 0xE6, CHR 0xB3, CHR 0x95, CHR 0xE4, CHR 0xBB,
     CHR 0x8E, CHR 0xE5, CHR 0x93, CHR 0x8D, CHR 0xE5, CHR 0xBA, CHR 0x94, CHR 0xE4, CHR 0xB8,
     CHR 0xAD, CHR 0xE6, CHR 0x8F, CHR 0x90, CHR 0xE5, CHR 0x8F,
     CHR 0x96] @ '' LLC '' @ [CHR 0xE5, CHR 0xAD, CHR 0x97, CHR 0xE6, CHR 0xAE, CHR 0xB5,
     CHR 0xEF, CHR 0xBC, CHR 0x8C, CHR 0xE5, CHR 0x93, CHR 0x8D, CHR 0xE5, CHR 0xBA, CHR 0x94,
     CHR 0xE5, CHR 0x86, CHR 0x85, CHR 0xE5, CHR 0xAE, CHR 0xB9] @ '': ''"

definition extractLLC :: "platform \<Rightarrow> IPInfoRaw \<Rightarrow> string \<times> goerror option" where
  "extractLLC P data =
     (case probeKeys data possibleKeys of
        Some str \<Rightarrow> (str, None)
      | None \<Rightarrow> ([], Some (GoError (msgExtract @ FormatV P data) None)))"

section \<open>queryLLCFromAPI\<close>

definition msgHTTP :: string where
  "msgHTTP = ''HTTP '' @ [CHR 0xE8, CHR 0xAF, CHR 0xB7, CHR 0xE6, CHR 0xB1, CHR 0x82, CHR 0xE5,
     CHR 0xA4, CHR 0xB1, CHR 0xE8, CHR 0xB4, CHR 0xA5] @ '': ''"

definition msgStatus :: string where
  "msgStatus = ''API '' @ [CHR 0xE8, CHR 0xBF, CHR 0x94, CHR 0xE5, CHR 0x9B, CHR 0x9E, CHR 0xE9,
     CHR 0x9D, CHR 0x9E] @ '' 200 '' @ [CHR 0xE7, CHR 0x8A, CHR 0xB6, CHR 0xE6, CHR 0x80,
     CHR 0x81, CHR 0xE7, CHR 0xA0, CHR 0x81] @ '': ''"

definition msgRead :: string where
  "msgRead = [CHR 0xE8, CHR 0xAF, CHR 0xBB, CHR 0xE5, CHR 0x8F, CHR 0x96, CHR 0xE5, CHR 0x93,
     CHR 0x8D, CHR 0xE5, CHR 0xBA, CHR 0x94, CHR 0xE4, CHR 0xBD, CHR 0x93, CHR 0xE5, CHR 0xA4,
     CHR 0xB1, CHR 0xE8, CHR 0xB4, CHR 0xA5] @ '': ''"

definition msgJSON :: string where
  "msgJSON = ''JSON '' @ [CHR 0xE8, CHR 0xA7, CHR 0xA3, CHR 0xE6, CHR 0x9E, CHR 0x90, CHR 0xE5,
     CHR 0xA4, CHR 0xB1, CHR 0xE8, CHR 0xB4, CHR 0xA5] @ '': ''"

definition queryLLCFromAPI ::
  "platform \<Rightarrow> string \<Rightarrow> string \<Rightarrow> Duration \<Rightarrow> run_state
     \<Rightarrow> (string \<times> goerror option) \<times> run_state" where
  "queryLLCFromAPI P ip baseURL timeout s =
     (let url = baseURL @ ip;
          s' = s\<lparr>gets := gets s + 1, trace := trace s @ [HttpGet url]\<rparr>
      in (case Get P (gets s) url timeout of
            Inl err \<Rightarrow> ([], Some (Errorf_w msgHTTP (Some err)))
          | Inr resp \<Rightarrow>
              if StatusCode resp \<noteq> 200 then
                ([], Some (GoError (msgStatus @ formatInt (StatusCode resp)) None))
              else
                (case Body resp of
                   Inl err \<Rightarrow> ([], Some (Errorf_w msgRead (Some err)))
                 | Inr body \<Rightarrow>
                     (case Unmarshal P body of
                        Inl err \<Rightarrow> ([], Some (Errorf_w msgJSON (Some err)))
                      | Inr raw \<Rightarrow> extractLLC P raw)),
          s'))"

section \<open>isRetryable and backoffDuration\<close>

definition isRetryable :: "goerror option \<Rightarrow> bool" where
  "isRetryable err =
     (case err of
        None \<Rightarrow> False
      | Some e \<Rightarrow>
          if Contains (ErrorText e) ''timeout'' \<or> Contains (ErrorText e) ''EOF'' then True
          else False)"

text \<open>\<open>time.Duration(1<<uint(attempt)) * time.Second\<close>. The shift is taken in
  \<open>int64\<close> and the shift count is the 64-bit unsigned reading of \<open>attempt\<close>; both the
  shift and the product wrap.\<close>

definition backoffDuration :: "int \<Rightarrow> Duration" where
  "backoffDuration attempt = push_bit (nat (attempt mod 2 ^ 64)) (1 :: 64 word) * Second"

section \<open>fetchLLCWithRetry\<close>

definition msgAllFailed :: string where
  "msgAllFailed = [CHR 0xE6, CHR 0x89, CHR 0x80, CHR 0xE6, CHR 0x9C,
     CHR 0x89] @ '' API '' @ [CHR 0xE5, CHR 0xB0, CHR 0x9D, CHR 0xE8, CHR 0xAF, CHR 0x95,
     CHR 0xE5, CHR 0x9D, CHR 0x87, CHR 0xE5, CHR 0xA4, CHR 0xB1, CHR 0xE8, CHR 0xB4,
     CHR 0xA5] @ '': ''"

text \<open>How the inner \<open>for attempt\<close> loop ends: the function returns the label, or the
  loop is left (by \<open>break\<close> or by its condition) with the current \<open>lastErr\<close>.\<close>

datatype attempts_end = Returned string | Exhausted "goerror option"

function attemptLoop ::
  "platform \<Rightarrow> string \<Rightarrow> string \<Rightarrow> Duration \<Rightarrow> int \<Rightarrow> int \<Rightarrow> goerror option \<Rightarrow> run_state
     \<Rightarrow> attempts_end \<times> run_state" where
  "attemptLoop P ip baseURL timeout maxRetries attempt lastErr s =
     (if attempt \<le> maxRetries then
        (case queryLLCFromAPI P ip baseURL timeout s of
           ((llc, err), s1) \<Rightarrow>
             if err = None then (Returned llc, s1)
             else if isRetryable err \<and> attempt < maxRetries then
               attemptLoop P ip baseURL timeout maxRetries (attempt + 1) err
                 (s1\<lparr>trace := trace s1 @ [Sleep (backoffDuration attempt)]\<rparr>)
             else (Exhausted err, s1))
      else (Exhausted lastErr, s))"
  by pat_completeness auto
termination
  by (relation "measure (\<lambda>(P, ip, baseURL, timeout, maxRetries, attempt, lastErr, s).
        nat (maxRetries + 1 - attempt))") auto

declare attemptLoop.simps [simp del]

fun endpointLoop ::
  "platform \<Rightarrow> string \<Rightarrow> string list \<Rightarrow> Duration \<Rightarrow> int \<Rightarrow> goerror option \<Rightarrow> run_state
     \<Rightarrow> (string \<times> goerror option) \<times> run_state" where
  "endpointLoop P ip [] timeout maxRetries lastErr s =
     (([], Some (Errorf_w msgAllFailed lastErr)), s)"
| "endpointLoop P ip (baseURL # rest) timeout maxRetries lastErr s =
     (case attemptLoop P ip baseURL timeout maxRetries 0 lastErr s of
        (Returned llc, s1) \<Rightarrow> ((llc, None), s1)
      | (Exhausted e, s1) \<Rightarrow> endpointLoop P ip rest timeout maxRetries e s1)"

definition fetchLLCWithRetry ::
  "platform \<Rightarrow> string \<Rightarrow> string list \<Rightarrow> Duration \<Rightarrow> int \<Rightarrow> run_state
     \<Rightarrow> (string \<times> goerror option) \<times> run_state" where
  "fetchLLCWithRetry P ip apiList timeout maxRetries s =
     endpointLoop P ip apiList timeout maxRetries None s"

section \<open>The task of one domain (the goroutine of \<open>main\<close>)\<close>

text \<open>The flags the task reads. \<open>optLimiter\<close> is \<open>limiter != nil\<close>, which \<open>main\<close>
  establishes exactly when \<open>-rps\<close> is positive.\<close>

record options =
  optApiList :: "string list"
  optStrict :: bool
  optTimeout :: Duration
  optMaxRetries :: int
  optLimiter :: bool

text \<open>The loop \<open>for _, ip := range ips\<close>, appending to \<open>ipResults\<close>.\<close>

fun lookupLoop ::
  "platform \<Rightarrow> options \<Rightarrow> string list \<Rightarrow> IPCheckResult list \<Rightarrow> run_state
     \<Rightarrow> IPCheckResult list \<times> run_state" where
  "lookupLoop P opts [] ipResults s = (ipResults, s)"
| "lookupLoop P opts (ip # ips) ipResults s =
     (let s1 = (if optLimiter opts then s\<lparr>trace := trace s @ [LimiterWait]\<rparr> else s)
      in case fetchLLCWithRetry P ip (optApiList opts) (optTimeout opts) (optMaxRetries opts) s1 of
           ((llc, err), s2) \<Rightarrow>
             lookupLoop P opts ips
               (ipResults @ [\<lparr>IP = ip, ActualLLC = llc, Error = err\<rparr>]) s2)"

definition msgDNS :: string where
  "msgDNS = ''DNS '' @ [CHR 0xE8, CHR 0xA7, CHR 0xA3, CHR 0xE6, CHR 0x9E, CHR 0x90, CHR 0xE5,
     CHR 0xA4, CHR 0xB1, CHR 0xE8, CHR 0xB4, CHR 0xA5] @ '': ''"

definition msgNoIPv4 :: string where
  "msgNoIPv4 = [CHR 0xE6, CHR 0xB2, CHR 0xA1, CHR 0xE6, CHR 0x9C, CHR 0x89, CHR 0xE6, CHR 0x89,
     CHR 0xBE, CHR 0xE5, CHR 0x88, CHR 0xB0] @ '' IPv4 '' @ [CHR 0xE5, CHR 0x9C, CHR 0xB0,
     CHR 0xE5, CHR 0x9D, CHR 0x80]"

definition checkDomain ::
  "platform \<Rightarrow> options \<Rightarrow> DomainConfig \<Rightarrow> run_state \<Rightarrow> DomainResult \<times> run_state" where
  "checkDomain P opts dc s =
     (case LookupIP P (Name dc) (optTimeout opts) of
        Inl err \<Rightarrow>
          (\<lparr>DomainName = Name dc, Expected = ExpectedLlcs dc, IPResults = [],
            IsPolluted = True, Summary = msgDNS @ ErrorText err\<rparr>, s)
      | Inr ips \<Rightarrow>
          if length ips = 0 then
            (\<lparr>DomainName = Name dc, Expected = ExpectedLlcs dc, IPResults = [],
              IsPolluted = True, Summary = msgNoIPv4\<rparr>, s)
          else
            (case lookupLoop P opts ips [] s of
               (ipResults, s1) \<Rightarrow>
                 (aggregateDomainResult (Name dc) (ExpectedLlcs dc) ipResults (optStrict opts),
                  s1)))"

text \<open>All domain tasks, and the collection of their results. The goroutines are taken
  one after the other, in the order of the configuration.\<close>

fun runDomains ::
  "platform \<Rightarrow> options \<Rightarrow> DomainConfig list \<Rightarrow> DomainResult list \<Rightarrow> run_state
     \<Rightarrow> DomainResult list \<times> run_state" where
  "runDomains P opts [] domainResults s = (domainResults, s)"
| "runDomains P opts (dc # dcs) domainResults s =
     (case checkDomain P opts dc s of
        (res, s1) \<Rightarrow> runDomains P opts dcs (domainResults @ [res]) s1)"

section \<open>The statistics of buildReport\<close>

text \<open>
  \<open>float64\<close> values are modelled by the rationals they denote. \<open>float64 x\<close> is the
  IEEE 754 binary64 value nearest to \<open>x\<close>, ties to even: the result of converting or of
  an arithmetic operation whose exact result is \<open>x\<close>. The exponent range is not
  modelled; the values rounded here (counts below \<open>2^63\<close>, their quotient, and its
  product with 100) lie far inside it.
\<close>

fun bitLength :: "nat \<Rightarrow> nat" where
  "bitLength n = (if n = 0 then 0 else Suc (bitLength (n div 2)))"

declare bitLength.simps [simp del]

definition pow2 :: "int \<Rightarrow> rat" where
  "pow2 e = (if 0 \<le> e then 2 ^ nat e else 1 / 2 ^ nat (- e))"

text \<open>For \<open>x > 0\<close>, the \<open>e\<close> with \<open>2^e \<le> x < 2^(e+1)\<close>.\<close>

definition floorLog2 :: "rat \<Rightarrow> int" where
  "floorLog2 x =
     (if 1 \<le> x then int (bitLength (nat \<lfloor>x\<rfloor>)) - 1
      else - int (bitLength (nat (\<lceil>1 / x\<rceil> - 1))))"

definition roundHalfEven :: "rat \<Rightarrow> int" where
  "roundHalfEven q =
     (let f = \<lfloor>q\<rfloor>; r = q - of_int f
      in if r < 1 / 2 then f
         else if 1 / 2 < r then f + 1
         else if even f then f else f + 1)"

definition float64 :: "rat \<Rightarrow> rat" where
  "float64 x =
     (if x = 0 then 0
      else let e = floorLog2 \<bar>x\<bar> - 52
           in of_int (roundHalfEven (x / pow2 e)) * pow2 e)"

definition levelNormal :: string where
  "levelNormal = [CHR 0xE6, CHR 0xAD, CHR 0xA3, CHR 0xE5, CHR 0xB8, CHR 0xB8]"

definition levelMild :: string where
  "levelMild = [CHR 0xE8, CHR 0xBD, CHR 0xBB, CHR 0xE5, CHR 0xBA, CHR 0xA6, CHR 0xE6, CHR 0xB1,
     CHR 0xA1, CHR 0xE6, CHR 0x9F, CHR 0x93]"

definition levelModerate :: string where
  "levelModerate = [CHR 0xE4, CHR 0xB8, CHR 0xAD, CHR 0xE5, CHR 0xBA, CHR 0xA6, CHR 0xE6,
     CHR 0xB1, CHR 0xA1, CHR 0xE6, CHR 0x9F, CHR 0x93]"

definition levelSevere :: string where
  "levelSevere = [CHR 0xE9, CHR 0x87, CHR 0x8D, CHR 0xE5, CHR 0xBA, CHR 0xA6, CHR 0xE6, CHR 0xB1,
     CHR 0xA1, CHR 0xE6, CHR 0x9F, CHR 0x93]"

definition pollutionLevel :: "rat \<Rightarrow> string" where
  "pollutionLevel rate =
     (if rate < 20 then levelNormal
      else if rate < 40 then levelMild
      else if rate < 60 then levelModerate
      else levelSevere)"

text \<open>The loop \<open>for _, r := range results\<close> that counts the polluted domains.\<close>

fun countPolluted :: "DomainResult list \<Rightarrow> int \<Rightarrow> int" where
  "countPolluted [] polluted = polluted"
| "countPolluted (r # rs) polluted =
     countPolluted rs (if IsPolluted r then polluted + 1 else polluted)"

text \<open>The four numbers \<open>buildReport\<close> computes before it renders the report.\<close>

record report_stats =
  statTotal :: int
  statPolluted :: int
  statRate :: rat
  statLevel :: string

definition buildReportStats :: "DomainResult list \<Rightarrow> report_stats" where
  "buildReportStats results =
     (let total = int (length results);
          polluted = countPolluted results 0;
          rate = (if total > 0
                  then float64 (float64 (float64 (of_int polluted) / float64 (of_int total)) * 100)
                  else 0);
          level = pollutionLevel rate
      in \<lparr>statTotal = total, statPolluted = polluted, statRate = rate, statLevel = level\<rparr>)"

section \<open>Notions used to state the properties\<close>

text \<open>The outcome of the \<open>k\<close>-th request of a run, as \<open>queryLLCFromAPI\<close> returns it.\<close>

definition queryOutcome ::
  "platform \<Rightarrow> nat \<Rightarrow> string \<Rightarrow> string \<Rightarrow> Duration \<Rightarrow> string \<times> goerror option" where
  "queryOutcome P k ip baseURL timeout =
     fst (queryLLCFromAPI P ip baseURL timeout \<lparr>gets = k, trace = []\<rparr>)"

text \<open>The events of \<open>k + 1\<close> requests to one URL with a sleep after each but the last,
  the first sleep being the backoff of attempt \<open>a\<close>.\<close>

fun endpointEvents :: "string \<Rightarrow> int \<Rightarrow> nat \<Rightarrow> event list" where
  "endpointEvents url a 0 = [HttpGet url]"
| "endpointEvents url a (Suc k) =
     HttpGet url # Sleep (backoffDuration a) # endpointEvents url (a + 1) k"

text \<open>An IP result has a non-empty label and no error, or an error and the empty label.\<close>

definition labelXorFailure :: "IPCheckResult \<Rightarrow> bool" where
  "labelXorFailure r =
     ((Error r = None \<and> ActualLLC r \<noteq> []) \<or> (Error r \<noteq> None \<and> ActualLLC r = []))"

text \<open>The test \<open>isRetryable\<close> applies to the text of an error.\<close>

definition hasRetryWord :: "string \<Rightarrow> bool" where
  "hasRetryWord text = (Contains text ''timeout'' \<or> Contains text ''EOF'')"

text \<open>
  The lookup as the specification of the lookup client words it, step by step over the
  remaining endpoints and the attempt number, not as the nested loops of
  \<open>fetchLLCWithRetry\<close>: a success returns the label; a retryable failure with attempts
  remaining sleeps for the backoff of the attempt and retries the same endpoint; any
  other failure advances to the next endpoint, where the attempt number is 0 again; when
  no endpoint is left the lookup fails with an error that wraps the most recent one.
\<close>

function lookupSpec ::
  "platform \<Rightarrow> string \<Rightarrow> Duration \<Rightarrow> int \<Rightarrow> string list \<Rightarrow> int \<Rightarrow> goerror option \<Rightarrow> run_state
     \<Rightarrow> (string \<times> goerror option) \<times> run_state" where
  "lookupSpec P ip timeout maxRetries [] attempt lastErr s =
     (([], Some (Errorf_w msgAllFailed lastErr)), s)"
| "lookupSpec P ip timeout maxRetries (baseURL # rest) attempt lastErr s =
     (case queryLLCFromAPI P ip baseURL timeout s of
        ((llc, err), s1) \<Rightarrow>
          if err = None then ((llc, None), s1)
          else if isRetryable err \<and> attempt < maxRetries then
            lookupSpec P ip timeout maxRetries (baseURL # rest) (attempt + 1) err
              (s1\<lparr>trace := trace s1 @ [Sleep (backoffDuration attempt)]\<rparr>)
          else lookupSpec P ip timeout maxRetries rest 0 err s1)"
  by pat_completeness auto
termination
  by (relation "measures
        [\<lambda>(P, ip, timeout, maxRetries, apiList, attempt, lastErr, s). length apiList,
         \<lambda>(P, ip, timeout, maxRetries, apiList, attempt, lastErr, s). nat (maxRetries - attempt)]")
     auto

declare lookupSpec.simps(2) [simp del]

section \<open>Concrete platforms and inputs\<close>

definition demoEndpoint :: string where
  "demoEndpoint = ''https://api.example/ipinfo?ip=''"

definition backupEndpoint :: string where
  "backupEndpoint = ''https://backup.example/v1/ip/''"

definition demoIP :: string where
  "demoIP = ''203.0.113.7''"

definition secondIP :: string where
  "secondIP = ''203.0.113.8''"

definition demoBody :: string where
  "demoBody = [CHR 0x7B, CHR 0x22] @ ''llc'' @ [CHR 0x22] @ '':'' @ [CHR 0x22] @ ''AMAZON-02''
     @ [CHR 0x22, CHR 0x7D]"

definition demoDocument :: IPInfoRaw where
  "demoDocument = [''llc'' \<mapsto> JString ''AMAZON-02'']"

definition gatewayBody :: string where
  "gatewayBody = [CHR 0x7B, CHR 0x22] @ ''code'' @ [CHR 0x22] @ '':504,'' @ [CHR 0x22]
     @ ''message'' @ [CHR 0x22] @ '':'' @ [CHR 0x22] @ ''gateway timeout'' @ [CHR 0x22, CHR 0x7D]"

definition gatewayDocument :: IPInfoRaw where
  "gatewayDocument = [''code'' \<mapsto> JNumber ''504'', ''message'' \<mapsto> JString ''gateway timeout'']"

definition dialTimeout :: "string \<Rightarrow> goerror" where
  "dialTimeout url =
     GoError (''Get '' @ [CHR 0x22] @ url @ [CHR 0x22]
              @ '': dial tcp 203.0.113.7:443: i/o timeout'') None"

definition connectionReset :: "string \<Rightarrow> goerror" where
  "connectionReset url =
     GoError (''Get '' @ [CHR 0x22] @ url @ [CHR 0x22]
              @ '': read tcp 10.0.0.2:51234->203.0.113.7:443: read: connection reset by peer'')
       None"

text \<open>The error of \<open>client.Get\<close> when the client's own \<open>Timeout\<close> expires while it waits
  for the response headers.\<close>

definition clientTimeout :: "string \<Rightarrow> goerror" where
  "clientTimeout url =
     GoError (''Get '' @ [CHR 0x22] @ url @ [CHR 0x22]
              @ '': context deadline exceeded (Client.Timeout exceeded while awaiting headers)'')
       None"

definition okResponse :: "goerror + http_response" where
  "okResponse = Inr \<lparr>StatusCode = 200, Body = Inr demoBody\<rparr>"

text \<open>A platform whose requests follow a script. It resolves \<open>a.example\<close> to one
  address, \<open>two.example\<close> to two, \<open>empty.example\<close> to none and no other name; it
  decodes the two bodies above and the empty object, and renders a document as \<open>fmt\<close>
  does.\<close>

definition scripted :: "(nat \<Rightarrow> string \<Rightarrow> goerror + http_response) \<Rightarrow> platform" where
  "scripted script =
     \<lparr>LookupIP = (\<lambda>name timeout.
         if name = ''a.example'' then Inr [demoIP]
         else if name = ''two.example'' then Inr [demoIP, secondIP]
         else if name = ''empty.example'' then Inr []
         else Inl (GoError (''lookup '' @ name @ '': no such host'') None)),
      Get = (\<lambda>k url timeout. script k url),
      Unmarshal = (\<lambda>body.
         if body = demoBody then Inr demoDocument
         else if body = gatewayBody then Inr gatewayDocument
         else if body = ''{}'' then Inr Map.empty
         else Inl (GoError ''unexpected end of JSON input'' None)),
      FormatV = (\<lambda>data.
         if data ''message'' = Some (JString ''gateway timeout'')
         then ''map[code:504 message:gateway timeout]''
         else ''map[]'')\<rparr>"

definition healthyPlatform :: platform where
  "healthyPlatform = scripted (\<lambda>k url. okResponse)"

definition flakyPlatform :: platform where
  "flakyPlatform = scripted (\<lambda>k url. if k < 2 then Inl (dialTimeout url) else okResponse)"

definition deadPlatform :: platform where
  "deadPlatform = scripted (\<lambda>k url. Inl (dialTimeout url))"

definition resetPlatform :: platform where
  "resetPlatform = scripted (\<lambda>k url. Inl (connectionReset url))"

definition clientTimeoutPlatform :: platform where
  "clientTimeoutPlatform = scripted (\<lambda>k url. Inl (clientTimeout url))"

definition gatewayPlatform :: platform where
  "gatewayPlatform = scripted (\<lambda>k url. Inr \<lparr>StatusCode = 200, Body = Inr gatewayBody\<rparr>)"

definition truncatedPlatform :: platform where
  "truncatedPlatform =
     scripted (\<lambda>k url. Inr \<lparr>StatusCode = 200, Body = Inl (GoError ''unexpected EOF'' None)\<rparr>)"

definition emptyBodyPlatform :: platform where
  "emptyBodyPlatform = scripted (\<lambda>k url. Inr \<lparr>StatusCode = 200, Body = Inr []\<rparr>)"

definition emptyObjectPlatform :: platform where
  "emptyObjectPlatform = scripted (\<lambda>k url. Inr \<lparr>StatusCode = 200, Body = Inr ''{}''\<rparr>)"

definition failoverPlatform :: platform where
  "failoverPlatform =
     scripted (\<lambda>k url. if k = 0 then Inr \<lparr>StatusCode = 500, Body = Inr []\<rparr> else okResponse)"

definition outagePlatform :: platform where
  "outagePlatform =
     scripted (\<lambda>k url. if k < 2 then Inr \<lparr>StatusCode = 500, Body = Inr []\<rparr> else okResponse)"

definition startState :: run_state where
  "startState = \<lparr>gets = 0, trace = []\<rparr>"

definition tenSeconds :: Duration where
  "tenSeconds = 10 * Second"

definition configA :: DomainConfig where
  "configA = \<lparr>Name = ''a.example'', ExpectedLlcs = [''AMAZON'']\<rparr>"

definition configB :: DomainConfig where
  "configB = \<lparr>Name = ''b.example'', ExpectedLlcs = [''GOOGLE'']\<rparr>"

definition demoOptions :: options where
  "demoOptions =
     \<lparr>optApiList = [demoEndpoint, backupEndpoint], optStrict = False, optTimeout = tenSeconds,
      optMaxRetries = 2, optLimiter = True\<rparr>"

section \<open>Strings\<close>

lemma HasPrefix_iff_prefix: "HasPrefix s pre \<longleftrightarrow> prefix pre s"
  unfolding HasPrefix_def
  by (metis append_eq_conv_conj prefix_def prefix_length_le take_is_prefix)

lemma HasPrefix_Nil [simp]: "HasPrefix s []"
  by (simp add: HasPrefix_def)

lemma HasPrefix_Cons_Cons [simp]:
  "HasPrefix (c # s) (d # pre) \<longleftrightarrow> c = d \<and> HasPrefix s pre"
  by (auto simp: HasPrefix_def)

lemma HasPrefix_Nil_Cons [simp]: "\<not> HasPrefix [] (d # pre)"
  by (simp add: HasPrefix_def)

lemma Contains_iff_sublist: "Contains s sub \<longleftrightarrow> sublist sub s"
  by (induction s) (auto simp: HasPrefix_iff_prefix sublist_Cons_right)

lemma Contains_skip:
  "sub \<noteq> [] \<Longrightarrow> hd sub \<notin> set pre \<Longrightarrow> Contains (pre @ x) sub = Contains x sub"
  by (induction pre) (auto simp: neq_Nil_conv)

lemma not_Contains_hd:
  "sub \<noteq> [] \<Longrightarrow> hd sub \<notin> set s \<Longrightarrow> \<not> Contains s sub"
  by (induction s) (auto simp: neq_Nil_conv)

lemma decimalDigits_nth: "d < 10 \<Longrightarrow> decimalDigits ! d \<in> set decimalDigits"
  by (rule nth_mem) (simp add: decimalDigits_def)

lemma digits_chars: "set (digits n) \<subseteq> set decimalDigits"
proof (induction n rule: digits.induct)
  case (1 n)
  show ?case
  proof (cases "n < 10")
    case True
    then show ?thesis
      by (subst digits.simps) (simp add: decimalDigits_nth)
  next
    case False
    have "n mod 10 < 10" by simp
    then have "decimalDigits ! (n mod 10) \<in> set decimalDigits"
      by (rule decimalDigits_nth)
    with False 1 show ?thesis
      by (subst digits.simps) simp
  qed
qed

lemma formatInt_chars: "set (formatInt i) \<subseteq> set (''-'' @ decimalDigits)"
  using digits_chars by (auto simp: formatInt_def)

section \<open>The aggregator\<close>

lemma matchExpected_iff:
  "matchExpected llc expected \<longleftrightarrow> (\<exists>e \<in> set expected. prefix e llc)"
  by (induction expected) (auto simp: HasPrefix_iff_prefix)

lemma aggregateLoop_anySuccess:
  "anySuccess (aggregateLoop expected i rs v) \<longleftrightarrow>
     anySuccess v \<or> (\<exists>r \<in> set rs. Error r = None \<and> matchExpected (ActualLLC r) expected)"
  by (induction rs arbitrary: i v) (auto simp: Let_def)

lemma aggregateLoop_allMatch:
  "allMatch (aggregateLoop expected i rs v) \<longleftrightarrow>
     allMatch v \<and> (\<forall>r \<in> set rs. Error r = None \<and> matchExpected (ActualLLC r) expected)"
  by (induction rs arbitrary: i v) (auto simp: Let_def)

lemma aggregateLoop_ipMatches:
  "i + length rs \<le> length (ipMatches v) \<Longrightarrow> j < length (ipMatches v) \<Longrightarrow>
   ipMatches (aggregateLoop expected i rs v) ! j =
     (if i \<le> j \<and> j < i + length rs
      then (Error (rs ! (j - i)) = None \<and> matchExpected (ActualLLC (rs ! (j - i))) expected)
      else ipMatches v ! j)"
proof (induction rs arbitrary: i v)
  case Nil
  then show ?case by auto
next
  case (Cons r rs)
  show ?case
  proof (cases "j = i")
    case True
    with Cons show ?thesis by (auto simp: Let_def)
  next
    case False
    with Cons show ?thesis
      by (auto simp: Let_def nth_Cons' Suc_diff_Suc split: if_splits)
  qed
qed

lemma aggregateVars_ipMatches:
  assumes "i < length ipResults"
  shows "ipMatches (aggregateVars expected ipResults) ! i =
     (Error (ipResults ! i) = None \<and> matchExpected (ActualLLC (ipResults ! i)) expected)"
  using assms aggregateLoop_ipMatches [of 0 ipResults _ i expected]
  by (simp add: aggregateVars_def)

text \<open>
  Claim C1. Whatever the domain, the expected prefixes and the IP results,
  \<open>aggregateDomainResult\<close> sets \<open>IsPolluted\<close> as follows. An IP result matches when
  it carries no error and some expected string is a prefix of its label. In strict mode
  the domain is clean iff every IP result matches, so it is polluted as soon as one
  result does not match or carries an error. In lenient mode the domain is clean iff at
  least one IP result matches, and polluted iff none does.
\<close>

theorem aggregateDomainResult_verdict:
  "IsPolluted (aggregateDomainResult domain expected ipResults strict) =
     (if strict
      then \<not> (\<forall>r \<in> set ipResults.
                Error r = None \<and> (\<exists>e \<in> set expected. prefix e (ActualLLC r)))
      else \<not> (\<exists>r \<in> set ipResults.
                Error r = None \<and> (\<exists>e \<in> set expected. prefix e (ActualLLC r))))"
  by (simp add: aggregateDomainResult_def aggregateVars_def Let_def
      aggregateLoop_allMatch aggregateLoop_anySuccess matchExpected_iff)

theorem aggregateDomainResult_verdict_witness:
  "IsPolluted (aggregateDomainResult ''amazon.co.jp'' [''AMAZON'']
       [\<lparr>IP = ''54.240.196.165'', ActualLLC = ''AMAZON-02'', Error = None\<rparr>,
        \<lparr>IP = ''198.51.100.9'', ActualLLC = ''EXAMPLE-NET'', Error = None\<rparr>] False) = False
   \<and> IsPolluted (aggregateDomainResult ''amazon.co.jp'' [''AMAZON'']
       [\<lparr>IP = ''54.240.196.165'', ActualLLC = ''AMAZON-02'', Error = None\<rparr>,
        \<lparr>IP = ''198.51.100.9'', ActualLLC = ''EXAMPLE-NET'', Error = None\<rparr>] True) = True"
  using
    aggregateDomainResult_verdict [of "''amazon.co.jp''" "[''AMAZON'']"
       "[\<lparr>IP = ''54.240.196.165'', ActualLLC = ''AMAZON-02'', Error = None\<rparr>,
         \<lparr>IP = ''198.51.100.9'', ActualLLC = ''EXAMPLE-NET'', Error = None\<rparr>]" False]
    aggregateDomainResult_verdict [of "''amazon.co.jp''" "[''AMAZON'']"
       "[\<lparr>IP = ''54.240.196.165'', ActualLLC = ''AMAZON-02'', Error = None\<rparr>,
         \<lparr>IP = ''198.51.100.9'', ActualLLC = ''EXAMPLE-NET'', Error = None\<rparr>]" True]
  by simp

text \<open>
  Claim C2. The per-IP match rule: the entry \<open>ipMatches[i]\<close> that the aggregation loop
  computes for the \<open>i\<close>-th result is true iff the result carries no error and its label
  starts with one of the expected strings, byte for byte (so with the case of every
  letter, and with nothing normalised). A result with an error never matches. The rule
  holds for every expected list, the non-empty ones included. In particular the label
  \<open>AMAZON-02\<close> matches the list \<open>[AMAZON]\<close> and \<open>AMAZONX\<close> does not match
  \<open>[AMAZON-]\<close>.
\<close>

theorem per_ip_match_rule:
  "(\<forall>i < length ipResults.
       ipMatches (aggregateVars expected ipResults) ! i =
         (Error (ipResults ! i) = None \<and>
          (\<exists>e \<in> set expected. \<exists>rest. ActualLLC (ipResults ! i) = e @ rest)))
   \<and> (\<forall>i < length ipResults.
         Error (ipResults ! i) \<noteq> None \<longrightarrow> \<not> ipMatches (aggregateVars expected ipResults) ! i)
   \<and> matchExpected ''AMAZON-02'' [''AMAZON'']
   \<and> \<not> matchExpected ''AMAZONX'' [''AMAZON-'']"
proof -
  have "matchExpected ''AMAZON-02'' [''AMAZON'']"
    by simp
  moreover have "\<not> matchExpected ''AMAZONX'' [''AMAZON-'']"
    by simp
  ultimately show ?thesis
    by (simp add: aggregateVars_ipMatches matchExpected_iff prefix_def)
qed

theorem per_ip_match_rule_witness:
  "ipMatches (aggregateVars [''AMAZON'', ''GOOGLE'']
      [\<lparr>IP = ''54.240.196.165'', ActualLLC = ''AMAZON-02'', Error = None\<rparr>,
       \<lparr>IP = ''198.51.100.9'', ActualLLC = ''amazon-02'', Error = None\<rparr>,
       \<lparr>IP = ''198.51.100.10'', ActualLLC = [], Error = Some (GoError ''boom'' None)\<rparr>])
   = [True, False, False]"
  using per_ip_match_rule [of
      "[\<lparr>IP = ''54.240.196.165'', ActualLLC = ''AMAZON-02'', Error = None\<rparr>,
        \<lparr>IP = ''198.51.100.9'', ActualLLC = ''amazon-02'', Error = None\<rparr>,
        \<lparr>IP = ''198.51.100.10'', ActualLLC = [], Error = Some (GoError ''boom'' None)\<rparr>]"
      "[''AMAZON'', ''GOOGLE'']"]
  by (simp add: aggregateVars_def)

text \<open>
  Claim C10. On an empty sequence of IP results the two modes disagree: strict mode
  reports the domain clean (nothing contradicts the all-match condition) and lenient
  mode reports it polluted (no result matched).
\<close>

theorem aggregateDomainResult_empty:
  "IsPolluted (aggregateDomainResult domain expected [] True) = False \<and>
   IsPolluted (aggregateDomainResult domain expected [] False) = True"
  by (simp add: aggregateDomainResult_def aggregateVars_def)

section \<open>The ownership lookup\<close>

lemma queryLLCFromAPI_eq:
  "queryLLCFromAPI P ip baseURL timeout s =
     (queryOutcome P (gets s) ip baseURL timeout,
      s\<lparr>gets := gets s + 1, trace := trace s @ [HttpGet (baseURL @ ip)]\<rparr>)"
  by (simp add: queryLLCFromAPI_def queryOutcome_def Let_def)

lemma probeKeys_nonempty: "probeKeys data ks = Some str \<Longrightarrow> str \<noteq> []"
  by (induction ks) (auto split: option.splits jvalue.splits if_splits)

lemma extractLLC_inv:
  "extractLLC P data = (llc, err) \<Longrightarrow>
     (err = None \<and> llc \<noteq> []) \<or> (err \<noteq> None \<and> llc = [])"
  by (auto simp: extractLLC_def split: option.splits dest: probeKeys_nonempty)

lemma queryOutcome_inv:
  "queryOutcome P k ip baseURL timeout = (llc, err) \<Longrightarrow>
     (err = None \<and> llc \<noteq> []) \<or> (err \<noteq> None \<and> llc = [])"
  by (auto simp: queryOutcome_def queryLLCFromAPI_def Let_def
      split: sum.splits if_splits dest: extractLLC_inv)

lemma attemptLoop_none:
  "\<not> attempt \<le> maxRetries \<Longrightarrow>
     attemptLoop P ip baseURL timeout maxRetries attempt lastErr s = (Exhausted lastErr, s)"
  by (subst attemptLoop.simps) simp

lemma attemptLoop_spec:
  assumes "attempt \<le> maxRetries"
  shows "\<exists>k. int k \<le> maxRetries - attempt \<and>
     (\<forall>j<k. snd (queryOutcome P (gets s + j) ip baseURL timeout) \<noteq> None \<and>
            isRetryable (snd (queryOutcome P (gets s + j) ip baseURL timeout))) \<and>
     (snd (queryOutcome P (gets s + k) ip baseURL timeout) = None \<or>
      \<not> isRetryable (snd (queryOutcome P (gets s + k) ip baseURL timeout)) \<or>
      int k = maxRetries - attempt) \<and>
     attemptLoop P ip baseURL timeout maxRetries attempt lastErr s =
       (if snd (queryOutcome P (gets s + k) ip baseURL timeout) = None
        then Returned (fst (queryOutcome P (gets s + k) ip baseURL timeout))
        else Exhausted (snd (queryOutcome P (gets s + k) ip baseURL timeout)),
        s\<lparr>gets := gets s + k + 1,
          trace := trace s @ endpointEvents (baseURL @ ip) attempt k\<rparr>)"
  using assms
proof (induction P ip baseURL timeout maxRetries attempt lastErr s rule: attemptLoop.induct)
  case (1 P ip baseURL timeout maxRetries attempt lastErr s)
  let ?out = "\<lambda>j. queryOutcome P (gets s + j) ip baseURL timeout"
  let ?s1 = "s\<lparr>gets := gets s + 1, trace := trace s @ [HttpGet (baseURL @ ip)]\<rparr>"
  obtain llc err where out0: "queryOutcome P (gets s) ip baseURL timeout = (llc, err)"
    by (cases "queryOutcome P (gets s) ip baseURL timeout")
  show ?case
  proof (cases "err \<noteq> None \<and> isRetryable err \<and> attempt < maxRetries")
    case False
    then have "attemptLoop P ip baseURL timeout maxRetries attempt lastErr s =
       (if err = None then Returned llc else Exhausted err, ?s1)"
      using "1.prems" out0
      by (subst attemptLoop.simps) (auto simp: queryLLCFromAPI_eq)
    moreover have "err = None \<or> \<not> isRetryable err \<or> int 0 = maxRetries - attempt"
      using False "1.prems" by auto
    ultimately show ?thesis
      using out0 "1.prems" by (intro exI [of _ 0]) auto
  next
    case True
    let ?s2 = "?s1\<lparr>trace := trace ?s1 @ [Sleep (backoffDuration attempt)]\<rparr>"
    have step: "attemptLoop P ip baseURL timeout maxRetries attempt lastErr s =
       attemptLoop P ip baseURL timeout maxRetries (attempt + 1) err ?s2"
      using True "1.prems" out0
      by (subst attemptLoop.simps) (auto simp: queryLLCFromAPI_eq)
    have "attempt + 1 \<le> maxRetries" using True by simp
    have q: "((llc, err), ?s1) = queryLLCFromAPI P ip baseURL timeout s"
      by (simp add: queryLLCFromAPI_eq out0)
    have ne: "err \<noteq> None" and rt: "isRetryable err \<and> attempt < maxRetries"
      using True by simp_all
    from "1.IH" [OF "1.prems" q refl ne rt \<open>attempt + 1 \<le> maxRetries\<close>]
    obtain k where k: "int k \<le> maxRetries - (attempt + 1)"
      "\<forall>j<k. snd (queryOutcome P (gets ?s2 + j) ip baseURL timeout) \<noteq> None \<and>
            isRetryable (snd (queryOutcome P (gets ?s2 + j) ip baseURL timeout))"
      "snd (queryOutcome P (gets ?s2 + k) ip baseURL timeout) = None \<or>
      \<not> isRetryable (snd (queryOutcome P (gets ?s2 + k) ip baseURL timeout)) \<or>
      int k = maxRetries - (attempt + 1)"
      "attemptLoop P ip baseURL timeout maxRetries (attempt + 1) err ?s2 =
       (if snd (queryOutcome P (gets ?s2 + k) ip baseURL timeout) = None
        then Returned (fst (queryOutcome P (gets ?s2 + k) ip baseURL timeout))
        else Exhausted (snd (queryOutcome P (gets ?s2 + k) ip baseURL timeout)),
        ?s2\<lparr>gets := gets ?s2 + k + 1,
          trace := trace ?s2 @ endpointEvents (baseURL @ ip) (attempt + 1) k\<rparr>)"
      by auto
    have "\<forall>j<Suc k. snd (?out j) \<noteq> None \<and> isRetryable (snd (?out j))"
    proof (intro allI impI)
      fix j assume "j < Suc k"
      show "snd (?out j) \<noteq> None \<and> isRetryable (snd (?out j))"
      proof (cases j)
        case 0
        then show ?thesis using True out0 by simp
      next
        case (Suc j')
        then show ?thesis using k(2) \<open>j < Suc k\<close> by simp
      qed
    qed
    then show ?thesis
      using k step by (intro exI [of _ "Suc k"]) (simp add: algebra_simps)
  qed
qed

lemma attemptLoop_Returned:
  assumes "attemptLoop P ip baseURL timeout maxRetries attempt lastErr s = (Returned llc, s')"
  shows "llc \<noteq> []"
proof (cases "attempt \<le> maxRetries")
  case True
  from attemptLoop_spec [OF True, of P s ip baseURL timeout lastErr] assms
  obtain k where "snd (queryOutcome P (gets s + k) ip baseURL timeout) = None"
    "llc = fst (queryOutcome P (gets s + k) ip baseURL timeout)"
    by (auto split: if_splits)
  then show ?thesis
    using queryOutcome_inv [of P "gets s + k" ip baseURL timeout]
    by (cases "queryOutcome P (gets s + k) ip baseURL timeout") auto
next
  case False
  then show ?thesis using assms by (simp add: attemptLoop_none)
qed

lemma endpointLoop_inv:
  "endpointLoop P ip apiList timeout maxRetries lastErr s = ((llc, err), s') \<Longrightarrow>
     (err = None \<and> llc \<noteq> []) \<or> (err \<noteq> None \<and> llc = [])"
proof (induction apiList arbitrary: lastErr s)
  case Nil
  then show ?case by auto
next
  case (Cons baseURL rest)
  obtain r s1 where a: "attemptLoop P ip baseURL timeout maxRetries 0 lastErr s = (r, s1)"
    by (cases "attemptLoop P ip baseURL timeout maxRetries 0 lastErr s")
  show ?case
  proof (cases r)
    case (Returned l)
    with a Cons.prems attemptLoop_Returned [of P ip baseURL timeout maxRetries 0 lastErr s l s1]
    show ?thesis by auto
  next
    case (Exhausted e)
    with a Cons.prems have "endpointLoop P ip rest timeout maxRetries e s1 = ((llc, err), s')"
      by simp
    then show ?thesis by (rule Cons.IH)
  qed
qed

lemma attemptLoop_lookupSpec:
  assumes "attempt \<le> maxRetries"
  shows "(case attemptLoop P ip baseURL timeout maxRetries attempt lastErr s of
            (Returned llc, s1) \<Rightarrow> ((llc, None), s1)
          | (Exhausted e, s1) \<Rightarrow> lookupSpec P ip timeout maxRetries rest 0 e s1)
         = lookupSpec P ip timeout maxRetries (baseURL # rest) attempt lastErr s"
  using assms
proof (induction P ip baseURL timeout maxRetries attempt lastErr s rule: attemptLoop.induct)
  case (1 P ip baseURL timeout maxRetries attempt lastErr s)
  obtain llc err s1 where q: "queryLLCFromAPI P ip baseURL timeout s = ((llc, err), s1)"
    by (metis prod.exhaust)
  show ?case
  proof (cases "err \<noteq> None \<and> isRetryable err \<and> attempt < maxRetries")
    case False
    then show ?thesis
      using q "1.prems"
      by (subst attemptLoop.simps, subst lookupSpec.simps) auto
  next
    case True
    then have ne: "err \<noteq> None" and rt: "isRetryable err \<and> attempt < maxRetries"
      and le: "attempt + 1 \<le> maxRetries"
      by simp_all
    from "1.IH" [OF "1.prems" q [symmetric] refl ne rt le] True q "1.prems"
    show ?thesis
      by (subst attemptLoop.simps, subst lookupSpec.simps) auto
  qed
qed

lemma endpointLoop_lookupSpec:
  assumes "0 \<le> maxRetries"
  shows "endpointLoop P ip apiList timeout maxRetries lastErr s =
         lookupSpec P ip timeout maxRetries apiList 0 lastErr s"
proof (induction apiList arbitrary: lastErr s)
  case Nil
  then show ?case by simp
next
  case (Cons baseURL rest)
  have "endpointLoop P ip (baseURL # rest) timeout maxRetries lastErr s =
     (case attemptLoop P ip baseURL timeout maxRetries 0 lastErr s of
        (Returned llc, s1) \<Rightarrow> ((llc, None), s1)
      | (Exhausted e, s1) \<Rightarrow> lookupSpec P ip timeout maxRetries rest 0 e s1)"
    by (simp add: Cons.IH split: prod.splits attempts_end.splits)
  also have "\<dots> = lookupSpec P ip timeout maxRetries (baseURL # rest) 0 lastErr s"
    by (rule attemptLoop_lookupSpec [OF assms])
  finally show ?case .
qed

lemma endpointLoop_error:
  assumes "0 \<le> maxRetries"
    and "endpointLoop P ip apiList timeout maxRetries lastErr s = ((llc, Some e), s')"
    and "apiList \<noteq> []"
  shows "e = Errorf_w msgAllFailed (snd (queryOutcome P (gets s' - 1) ip (last apiList) timeout))
     \<and> snd (queryOutcome P (gets s' - 1) ip (last apiList) timeout) \<noteq> None
     \<and> gets s < gets s'"
  using assms(2,3)
proof (induction apiList arbitrary: lastErr s)
  case Nil
  then show ?case by simp
next
  case (Cons baseURL rest)
  from attemptLoop_spec [OF assms(1), of P s ip baseURL timeout lastErr]
  obtain k where k:
    "attemptLoop P ip baseURL timeout maxRetries 0 lastErr s =
       (if snd (queryOutcome P (gets s + k) ip baseURL timeout) = None
        then Returned (fst (queryOutcome P (gets s + k) ip baseURL timeout))
        else Exhausted (snd (queryOutcome P (gets s + k) ip baseURL timeout)),
        s\<lparr>gets := gets s + k + 1,
          trace := trace s @ endpointEvents (baseURL @ ip) 0 k\<rparr>)"
    by auto
  let ?e = "snd (queryOutcome P (gets s + k) ip baseURL timeout)"
  let ?s1 = "s\<lparr>gets := gets s + k + 1, trace := trace s @ endpointEvents (baseURL @ ip) 0 k\<rparr>"
  have ne: "?e \<noteq> None"
    using Cons.prems(1) k by (auto split: if_splits)
  then have rest: "endpointLoop P ip rest timeout maxRetries ?e ?s1 = ((llc, Some e), s')"
    using Cons.prems(1) k by auto
  show ?case
  proof (cases "rest = []")
    case True
    with rest ne show ?thesis by auto
  next
    case False
    from Cons.IH [OF rest False] False show ?thesis by auto
  qed
qed

section \<open>Failure classification\<close>

lemma msg_chars:
  "CHR ''t'' \<notin> set msgHTTP" "CHR ''E'' \<notin> set msgHTTP"
  "CHR ''t'' \<notin> set msgStatus" "CHR ''E'' \<notin> set msgStatus"
  "CHR ''t'' \<notin> set msgRead" "CHR ''E'' \<notin> set msgRead"
  "CHR ''t'' \<notin> set msgJSON" "CHR ''E'' \<notin> set msgJSON"
  "CHR ''t'' \<notin> set msgExtract" "CHR ''E'' \<notin> set msgExtract"
  by (simp_all add: msgHTTP_def msgStatus_def msgRead_def msgJSON_def msgExtract_def)

lemma isRetryable_Some: "isRetryable (Some e) = hasRetryWord (ErrorText e)"
  by (simp add: isRetryable_def hasRetryWord_def)

lemma hasRetryWord_skip:
  "CHR ''t'' \<notin> set pre \<Longrightarrow> CHR ''E'' \<notin> set pre \<Longrightarrow> hasRetryWord (pre @ x) = hasRetryWord x"
  by (simp add: hasRetryWord_def Contains_skip)

lemma hasRetryWord_formatInt: "\<not> hasRetryWord (formatInt code)"
proof -
  have "CHR ''t'' \<notin> set (formatInt code)" "CHR ''E'' \<notin> set (formatInt code)"
    using formatInt_chars [of code] by (auto simp: decimalDigits_def)
  then show ?thesis
    by (simp add: hasRetryWord_def not_Contains_hd)
qed

lemma isRetryable_wrapped:
  "CHR ''t'' \<notin> set pre \<Longrightarrow> CHR ''E'' \<notin> set pre \<Longrightarrow>
     isRetryable (Some (Errorf_w pre (Some err))) = hasRetryWord (ErrorText err)"
  by (simp add: isRetryable_Some Errorf_w_def hasRetryWord_skip)

lemma isRetryable_outcome:
  "isRetryable (snd (queryOutcome P k ip baseURL timeout)) =
     (case Get P k (baseURL @ ip) timeout of
        Inl err \<Rightarrow> hasRetryWord (ErrorText err)
      | Inr resp \<Rightarrow>
          if StatusCode resp \<noteq> 200 then False
          else (case Body resp of
                  Inl err \<Rightarrow> hasRetryWord (ErrorText err)
                | Inr body \<Rightarrow>
                    (case Unmarshal P body of
                       Inl err \<Rightarrow> hasRetryWord (ErrorText err)
                     | Inr raw \<Rightarrow>
                         (case probeKeys raw possibleKeys of
                            Some str \<Rightarrow> False
                          | None \<Rightarrow> hasRetryWord (FormatV P raw)))))"
  by (simp add: queryOutcome_def queryLLCFromAPI_def Let_def extractLLC_def
      isRetryable_wrapped msg_chars isRetryable_Some hasRetryWord_skip hasRetryWord_formatInt
      split: sum.splits option.splits)
    (simp add: Errorf_w_def hasRetryWord_skip msg_chars isRetryable_def)

text \<open>
  What \<open>isRetryable\<close> computes: \<open>nil\<close> is not retryable, and an error is retryable
  iff its text contains \<open>timeout\<close> or \<open>EOF\<close>. For the failures of one request: a
  failed request, or a failed read of the body, is retryable iff the text of the
  underlying error contains one of the two words; a status other than 200 is never
  retryable; an undecodable body, or a document without a label field, is not retryable
  when the decoder's message, or the rendering of the document, contains neither word.
\<close>

lemma isRetryable_by_text:
  "(isRetryable None = False)
   \<and> (isRetryable (Some e) \<longleftrightarrow>
        Contains (ErrorText e) ''timeout'' \<or> Contains (ErrorText e) ''EOF'')
   \<and> (Get P k (baseURL @ ip) timeout = Inl err \<longrightarrow>
        isRetryable (snd (queryOutcome P k ip baseURL timeout)) = hasRetryWord (ErrorText err))
   \<and> (Get P k (baseURL @ ip) timeout = Inr resp \<and> StatusCode resp = 200 \<and>
      Body resp = Inl err \<longrightarrow>
        isRetryable (snd (queryOutcome P k ip baseURL timeout)) = hasRetryWord (ErrorText err))
   \<and> (Get P k (baseURL @ ip) timeout = Inr resp \<and> StatusCode resp \<noteq> 200 \<longrightarrow>
        \<not> isRetryable (snd (queryOutcome P k ip baseURL timeout)))
   \<and> (Get P k (baseURL @ ip) timeout = Inr resp \<and> StatusCode resp = 200 \<and>
      Body resp = Inr body \<and> Unmarshal P body = Inl err \<and> \<not> hasRetryWord (ErrorText err) \<longrightarrow>
        \<not> isRetryable (snd (queryOutcome P k ip baseURL timeout)))
   \<and> (Get P k (baseURL @ ip) timeout = Inr resp \<and> StatusCode resp = 200 \<and>
      Body resp = Inr body \<and> Unmarshal P body = Inr raw \<and> probeKeys raw possibleKeys = None \<and>
      \<not> hasRetryWord (FormatV P raw) \<longrightarrow>
        \<not> isRetryable (snd (queryOutcome P k ip baseURL timeout)))"
  by (simp add: isRetryable_outcome) (simp add: isRetryable_def)

lemmas platform_defs = scripted_def healthyPlatform_def flakyPlatform_def deadPlatform_def
  resetPlatform_def gatewayPlatform_def truncatedPlatform_def emptyBodyPlatform_def
  emptyObjectPlatform_def failoverPlatform_def outagePlatform_def clientTimeoutPlatform_def
  okResponse_def

lemmas input_defs = demoEndpoint_def backupEndpoint_def demoIP_def secondIP_def demoBody_def
  demoDocument_def
  gatewayBody_def gatewayDocument_def dialTimeout_def connectionReset_def clientTimeout_def
  startState_def tenSeconds_def demoOptions_def configA_def configB_def

lemma isRetryable_by_text_examples:
  "isRetryable (snd (queryOutcome deadPlatform 0 demoIP demoEndpoint tenSeconds))
   \<and> \<not> isRetryable (snd (queryOutcome resetPlatform 0 demoIP demoEndpoint tenSeconds))
   \<and> isRetryable (snd (queryOutcome truncatedPlatform 0 demoIP demoEndpoint tenSeconds))
   \<and> \<not> isRetryable (snd (queryOutcome failoverPlatform 0 demoIP demoEndpoint tenSeconds))
   \<and> \<not> isRetryable (snd (queryOutcome emptyBodyPlatform 0 demoIP demoEndpoint tenSeconds))
   \<and> \<not> isRetryable (snd (queryOutcome emptyObjectPlatform 0 demoIP demoEndpoint tenSeconds))"
  using
    isRetryable_by_text [of _ deadPlatform 0 demoEndpoint demoIP tenSeconds
      "dialTimeout (demoEndpoint @ demoIP)"]
    isRetryable_by_text [of _ resetPlatform 0 demoEndpoint demoIP tenSeconds
      "connectionReset (demoEndpoint @ demoIP)"]
    isRetryable_by_text [of _ truncatedPlatform 0 demoEndpoint demoIP tenSeconds
      "GoError ''unexpected EOF'' None"
      "\<lparr>StatusCode = 200, Body = Inl (GoError ''unexpected EOF'' None)\<rparr>"]
    isRetryable_by_text [of _ failoverPlatform 0 demoEndpoint demoIP tenSeconds _
      "\<lparr>StatusCode = 500, Body = Inr []\<rparr>"]
    isRetryable_by_text [of _ emptyBodyPlatform 0 demoEndpoint demoIP tenSeconds
      "GoError ''unexpected end of JSON input'' None"
      "\<lparr>StatusCode = 200, Body = Inr []\<rparr>" "[]"]
    isRetryable_by_text [of _ emptyObjectPlatform 0 demoEndpoint demoIP tenSeconds _
      "\<lparr>StatusCode = 200, Body = Inr ''{}''\<rparr>" "''{}''" Map.empty]
  by (simp add: platform_defs input_defs hasRetryWord_def possibleKeys_def)

text \<open>
  Claim C4 against the code. The comments of \<open>fetchLLCWithRetry\<close> and \<open>isRetryable\<close>
  say that network timeouts and temporary errors are retried, as the claim does, but the
  test on the error text misses them. A request that ends in a connection reset, a
  transport error that is no timeout, is classified not retryable. A request that runs
  into the client's timeout is classified not retryable: its text has \<open>Timeout\<close> with a
  capital letter. And a 200 response whose document has no label field but mentions
  \<open>timeout\<close>, a failure the claim calls not retryable, is classified retryable.
\<close>

theorem isRetryable_misclassifies:
  "Get resetPlatform 0 (demoEndpoint @ demoIP) tenSeconds =
     Inl (connectionReset (demoEndpoint @ demoIP))
   \<and> \<not> isRetryable (snd (queryOutcome resetPlatform 0 demoIP demoEndpoint tenSeconds))
   \<and> Get clientTimeoutPlatform 0 (demoEndpoint @ demoIP) tenSeconds =
     Inl (clientTimeout (demoEndpoint @ demoIP))
   \<and> \<not> isRetryable (snd (queryOutcome clientTimeoutPlatform 0 demoIP demoEndpoint tenSeconds))
   \<and> Get gatewayPlatform 0 (demoEndpoint @ demoIP) tenSeconds =
     Inr \<lparr>StatusCode = 200, Body = Inr gatewayBody\<rparr>
   \<and> probeKeys gatewayDocument possibleKeys = None
   \<and> isRetryable (snd (queryOutcome gatewayPlatform 0 demoIP demoEndpoint tenSeconds))"
  by (simp add: isRetryable_outcome platform_defs input_defs hasRetryWord_def possibleKeys_def)

section \<open>Retries and backoff\<close>

lemma backoffDuration_seconds:
  assumes "0 \<le> attempt" "attempt \<le> 33"
  shows "sint (backoffDuration attempt) = 2 ^ nat attempt * 1000000000"
proof -
  let ?n = "nat attempt"
  have n: "?n \<le> 33" using assms by simp
  have m: "nat (attempt mod 2 ^ 64) = ?n" using assms by simp
  have "(2::int) ^ ?n \<le> 2 ^ 33" using n by (intro power_increasing) simp_all
  then have b: "(2::int) ^ ?n * 1000000000 < 2 ^ 63" by simp
  have b0: "- (2 ^ 63) \<le> (2::int) ^ ?n * 1000000000"
    by (rule order_trans [of _ 0]) simp_all
  have "backoffDuration attempt = word_of_int (2 ^ ?n * 1000000000)"
    unfolding backoffDuration_def Second_def m by (simp add: push_bit_eq_mult)
  moreover have "sint (word_of_int (2 ^ ?n * 1000000000) :: 64 word) = 2 ^ ?n * 1000000000"
    unfolding sint_sbintrunc' by (rule signed_take_bit_int_eq_self) (use b b0 in simp_all)
  ultimately show ?thesis by simp
qed



lemma isRetryable_not_None: "isRetryable err \<Longrightarrow> err \<noteq> None"
  by (cases err) (simp_all add: isRetryable_def)



lemma retry_scenario:
  assumes "isRetryable (snd (queryOutcome P (gets s) ip baseURL timeout))"
    and "isRetryable (snd (queryOutcome P (gets s + 1) ip baseURL timeout))"
    and "queryOutcome P (gets s + 2) ip baseURL timeout = (llc, None)"
  shows "fetchLLCWithRetry P ip (baseURL # rest) timeout 2 s =
     ((llc, None),
      s\<lparr>gets := gets s + 3,
        trace := trace s @ [HttpGet (baseURL @ ip), Sleep Second, HttpGet (baseURL @ ip),
                            Sleep (2 * Second), HttpGet (baseURL @ ip)]\<rparr>)"
proof -
  from attemptLoop_spec [of 0 2 P s ip baseURL timeout None]
  obtain k where k: "int k \<le> 2"
    "snd (queryOutcome P (gets s + k) ip baseURL timeout) = None \<or>
      \<not> isRetryable (snd (queryOutcome P (gets s + k) ip baseURL timeout)) \<or>
      int k = 2"
    "attemptLoop P ip baseURL timeout 2 0 None s =
       (if snd (queryOutcome P (gets s + k) ip baseURL timeout) = None
        then Returned (fst (queryOutcome P (gets s + k) ip baseURL timeout))
        else Exhausted (snd (queryOutcome P (gets s + k) ip baseURL timeout)),
        s\<lparr>gets := gets s + k + 1,
          trace := trace s @ endpointEvents (baseURL @ ip) 0 k\<rparr>)"
    by force
  have "k \<noteq> 0" using k(2) assms(1) isRetryable_not_None by (intro notI) auto
  moreover have "k \<noteq> 1" using k(2) assms(2) isRetryable_not_None by (intro notI) auto
  ultimately have "k = 2" using k(1) by simp
  have ev: "endpointEvents (baseURL @ ip) 0 2 =
      [HttpGet (baseURL @ ip), Sleep Second, HttpGet (baseURL @ ip),
       Sleep (2 * Second), HttpGet (baseURL @ ip)]"
    by (simp add: numeral_2_eq_2 backoffDuration_def)
  show ?thesis
    using k(3) assms(3) unfolding \<open>k = 2\<close> ev
    by (simp add: fetchLLCWithRetry_def)
qed

lemma attemptLoop_gets:
  "gets (snd (attemptLoop P ip baseURL timeout maxRetries attempt lastErr s)) \<le>
     gets s + nat (maxRetries + 1 - attempt)"
proof (cases "attempt \<le> maxRetries")
  case True
  from attemptLoop_spec [OF True, of P s ip baseURL timeout lastErr]
  obtain k where k: "int k \<le> maxRetries - attempt"
    "attemptLoop P ip baseURL timeout maxRetries attempt lastErr s =
       (if snd (queryOutcome P (gets s + k) ip baseURL timeout) = None
        then Returned (fst (queryOutcome P (gets s + k) ip baseURL timeout))
        else Exhausted (snd (queryOutcome P (gets s + k) ip baseURL timeout)),
        s\<lparr>gets := gets s + k + 1,
          trace := trace s @ endpointEvents (baseURL @ ip) attempt k\<rparr>)"
    by blast
  from k(1) have "k + 1 \<le> nat (maxRetries + 1 - attempt)" by simp
  with k(2) show ?thesis by simp
next
  case False
  then show ?thesis by (simp add: attemptLoop_none)
qed

lemma endpointLoop_gets:
  "gets (snd (endpointLoop P ip apiList timeout maxRetries lastErr s)) \<le>
     gets s + length apiList * nat (maxRetries + 1)"
proof (induction apiList arbitrary: lastErr s)
  case Nil
  then show ?case by simp
next
  case (Cons baseURL rest)
  obtain r s1 where a: "attemptLoop P ip baseURL timeout maxRetries 0 lastErr s = (r, s1)"
    by (metis prod.exhaust)
  with attemptLoop_gets [of P ip baseURL timeout maxRetries 0 lastErr s]
  have s1: "gets s1 \<le> gets s + nat (maxRetries + 1)" by simp
  show ?case
  proof (cases r)
    case (Returned llc)
    with a s1 show ?thesis by simp
  next
    case (Exhausted e)
    with a s1 Cons.IH [of e s1] show ?thesis by simp
  qed
qed


text \<open>
  What holds of the retries on every platform. On each endpoint the lookup runs the
  attempt loop from attempt 0. With \<open>maxRetries \<ge> 0\<close> the loop issues \<open>k + 1\<close> requests for some
  \<open>k \<le> maxRetries\<close>, so at most \<open>maxRetries + 1\<close>, the first \<open>k\<close> of which failed
  with a retryable error, while the last one succeeded, failed with an error that is not
  retryable, or was attempt \<open>maxRetries\<close>; after the \<open>j\<close>-th of the first \<open>k\<close> it
  sleeps for \<open>backoffDuration j\<close> and it does nothing else. With \<open>maxRetries < 0\<close> it issues no
  request. A whole lookup therefore issues at most \<open>maxRetries + 1\<close> requests per
  endpoint of its list. \<open>backoffDuration j\<close> is \<open>2^j\<close> seconds for every \<open>j \<le> 33\<close>. A
  lookup with \<open>maxRetries = 2\<close> whose first two requests fail with a retryable error
  and whose third succeeds returns that success, having slept \<open>2^0\<close> and then \<open>2^1\<close>
  seconds between the attempts.
\<close>

lemma attempts_and_backoff:
  "(0 \<le> maxRetries \<longrightarrow>
      (\<exists>k. int k \<le> maxRetries \<and>
         (\<forall>j<k. isRetryable (snd (queryOutcome P (gets s + j) ip baseURL timeout))) \<and>
         (snd (queryOutcome P (gets s + k) ip baseURL timeout) = None \<or>
          \<not> isRetryable (snd (queryOutcome P (gets s + k) ip baseURL timeout)) \<or>
          int k = maxRetries) \<and>
         gets (snd (attemptLoop P ip baseURL timeout maxRetries 0 lastErr s)) = gets s + (k + 1) \<and>
         trace (snd (attemptLoop P ip baseURL timeout maxRetries 0 lastErr s)) =
           trace s @ endpointEvents (baseURL @ ip) 0 k))
   \<and> (maxRetries < 0 \<longrightarrow>
        attemptLoop P ip baseURL timeout maxRetries 0 lastErr s = (Exhausted lastErr, s))
   \<and> gets (snd (fetchLLCWithRetry P ip apiList timeout maxRetries s)) \<le>
        gets s + length apiList * nat (maxRetries + 1)
   \<and> (\<forall>n \<le> 33. sint (backoffDuration (int n)) = 2 ^ n * 1000000000)
   \<and> (isRetryable (snd (queryOutcome P (gets s) ip baseURL timeout)) \<and>
      isRetryable (snd (queryOutcome P (gets s + 1) ip baseURL timeout)) \<and>
      queryOutcome P (gets s + 2) ip baseURL timeout = (llc, None) \<longrightarrow>
        fetchLLCWithRetry P ip (baseURL # rest) timeout 2 s =
          ((llc, None),
           s\<lparr>gets := gets s + 3,
             trace := trace s @ [HttpGet (baseURL @ ip), Sleep Second, HttpGet (baseURL @ ip),
                                 Sleep (2 * Second), HttpGet (baseURL @ ip)]\<rparr>)
        \<and> sint Second = 2 ^ 0 * 1000000000 \<and> sint (2 * Second) = 2 ^ 1 * 1000000000)"
proof (intro conjI impI)
  assume m: "0 \<le> maxRetries"
  from attemptLoop_spec [OF m, of P s ip baseURL timeout lastErr]
  obtain k where k: "int k \<le> maxRetries - 0"
    "\<forall>j<k. snd (queryOutcome P (gets s + j) ip baseURL timeout) \<noteq> None \<and>
            isRetryable (snd (queryOutcome P (gets s + j) ip baseURL timeout))"
    "snd (queryOutcome P (gets s + k) ip baseURL timeout) = None \<or>
      \<not> isRetryable (snd (queryOutcome P (gets s + k) ip baseURL timeout)) \<or>
      int k = maxRetries - 0"
    "attemptLoop P ip baseURL timeout maxRetries 0 lastErr s =
       (if snd (queryOutcome P (gets s + k) ip baseURL timeout) = None
        then Returned (fst (queryOutcome P (gets s + k) ip baseURL timeout))
        else Exhausted (snd (queryOutcome P (gets s + k) ip baseURL timeout)),
        s\<lparr>gets := gets s + k + 1,
          trace := trace s @ endpointEvents (baseURL @ ip) 0 k\<rparr>)"
    by blast
  then show "\<exists>k. int k \<le> maxRetries \<and>
         (\<forall>j<k. isRetryable (snd (queryOutcome P (gets s + j) ip baseURL timeout))) \<and>
         (snd (queryOutcome P (gets s + k) ip baseURL timeout) = None \<or>
          \<not> isRetryable (snd (queryOutcome P (gets s + k) ip baseURL timeout)) \<or>
          int k = maxRetries) \<and>
         gets (snd (attemptLoop P ip baseURL timeout maxRetries 0 lastErr s)) = gets s + (k + 1) \<and>
         trace (snd (attemptLoop P ip baseURL timeout maxRetries 0 lastErr s)) =
           trace s @ endpointEvents (baseURL @ ip) 0 k"
    by (intro exI [of _ k]) simp
next
  assume "maxRetries < 0"
  then show "attemptLoop P ip baseURL timeout maxRetries 0 lastErr s = (Exhausted lastErr, s)"
    by (simp add: attemptLoop_none)
next
  show "gets (snd (fetchLLCWithRetry P ip apiList timeout maxRetries s)) \<le>
        gets s + length apiList * nat (maxRetries + 1)"
    unfolding fetchLLCWithRetry_def by (rule endpointLoop_gets)
next
  show "\<forall>n \<le> 33. sint (backoffDuration (int n)) = 2 ^ n * 1000000000"
    using backoffDuration_seconds by simp
next
  assume a: "isRetryable (snd (queryOutcome P (gets s) ip baseURL timeout)) \<and>
      isRetryable (snd (queryOutcome P (gets s + 1) ip baseURL timeout)) \<and>
      queryOutcome P (gets s + 2) ip baseURL timeout = (llc, None)"
  then show "fetchLLCWithRetry P ip (baseURL # rest) timeout 2 s =
          ((llc, None),
           s\<lparr>gets := gets s + 3,
             trace := trace s @ [HttpGet (baseURL @ ip), Sleep Second, HttpGet (baseURL @ ip),
                                 Sleep (2 * Second), HttpGet (baseURL @ ip)]\<rparr>)"
    by (intro retry_scenario) simp_all
next
  show "sint Second = 2 ^ 0 * 1000000000" by (simp add: Second_def)
next
  show "sint (2 * Second) = 2 ^ 1 * 1000000000" by (simp add: Second_def)
qed

lemma attempts_and_backoff_example:
  "fetchLLCWithRetry flakyPlatform demoIP [demoEndpoint] tenSeconds 2 startState =
     ((''AMAZON-02'', None),
      \<lparr>gets = 3,
       trace = [HttpGet (demoEndpoint @ demoIP), Sleep 1000000000, HttpGet (demoEndpoint @ demoIP),
                Sleep 2000000000, HttpGet (demoEndpoint @ demoIP)]\<rparr>)"
proof -
  have "isRetryable (snd (queryOutcome flakyPlatform (gets startState) demoIP demoEndpoint tenSeconds))"
    by (simp add: isRetryable_outcome platform_defs input_defs hasRetryWord_def)
  moreover
  have "isRetryable (snd (queryOutcome flakyPlatform (gets startState + 1) demoIP demoEndpoint tenSeconds))"
    by (simp add: isRetryable_outcome platform_defs input_defs hasRetryWord_def)
  moreover
  have "queryOutcome flakyPlatform (gets startState + 2) demoIP demoEndpoint tenSeconds =
      (''AMAZON-02'', None)"
    by (simp add: queryOutcome_def queryLLCFromAPI_def extractLLC_def possibleKeys_def
        platform_defs input_defs)
  ultimately show ?thesis
    using attempts_and_backoff [where P = flakyPlatform and s = startState and ip = demoIP
        and baseURL = demoEndpoint and timeout = tenSeconds and llc = "''AMAZON-02''"
        and rest = "[]" and maxRetries = 2 and lastErr = None]
    by (simp add: startState_def Second_def)
qed


section \<open>Endpoint fallback\<close>

lemma Unwrap_Errorf_w [simp]: "Unwrap (Errorf_w pre err) = err"
  by (cases err) (simp_all add: Errorf_w_def)

lemma ErrorText_Errorf_w [simp]:
  "ErrorText (Errorf_w pre (Some e)) = pre @ ErrorText e"
  by (simp add: Errorf_w_def)

text \<open>
  Claim C6, as the code has it. With \<open>maxRetries \<ge> 0\<close>, \<open>fetchLLCWithRetry\<close> is the
  flat lookup \<open>lookupSpec\<close>: on a failure that is not retryable, or once the retries
  of the current endpoint are used up, it moves to the next endpoint in order, and there
  the attempt number (hence the backoff exponent) starts again from 0. When every
  endpoint of a non-empty list has been used without success, the lookup returns the
  empty label and an error that wraps the error of the most recent request, which is the
  last request issued, to the last endpoint; the text of the returned error is the
  all-attempts-failed message followed by the text of that error.
\<close>

theorem endpoint_fallback:
  "0 \<le> maxRetries \<longrightarrow>
     fetchLLCWithRetry P ip apiList timeout maxRetries s =
       lookupSpec P ip timeout maxRetries apiList 0 None s
     \<and> (apiList \<noteq> [] \<and> fetchLLCWithRetry P ip apiList timeout maxRetries s = ((llc, Some e), s')
          \<longrightarrow> llc = []
            \<and> snd (queryOutcome P (gets s' - 1) ip (last apiList) timeout) \<noteq> None
            \<and> Unwrap e = snd (queryOutcome P (gets s' - 1) ip (last apiList) timeout)
            \<and> ErrorText e =
                msgAllFailed @
                ErrorText (the (snd (queryOutcome P (gets s' - 1) ip (last apiList) timeout))))"
proof (intro impI conjI)
  assume m: "0 \<le> maxRetries"
  show "fetchLLCWithRetry P ip apiList timeout maxRetries s =
       lookupSpec P ip timeout maxRetries apiList 0 None s"
    by (simp add: fetchLLCWithRetry_def endpointLoop_lookupSpec [OF m])
next
  assume m: "0 \<le> maxRetries"
    and f: "apiList \<noteq> [] \<and>
      fetchLLCWithRetry P ip apiList timeout maxRetries s = ((llc, Some e), s')"
  then have run: "endpointLoop P ip apiList timeout maxRetries None s = ((llc, Some e), s')"
    and ne: "apiList \<noteq> []"
    by (simp_all add: fetchLLCWithRetry_def)
  let ?last = "snd (queryOutcome P (gets s' - 1) ip (last apiList) timeout)"
  from endpointLoop_error [OF m run ne]
  have e: "e = Errorf_w msgAllFailed ?last" and l: "?last \<noteq> None"
    by simp_all
  from endpointLoop_inv [OF run] show "llc = []" by simp
  from l show "?last \<noteq> None" .
  from e show "Unwrap e = ?last" by simp
  from l obtain x where "?last = Some x" by blast
  with e show "ErrorText e = msgAllFailed @ ErrorText (the ?last)" by simp
qed

theorem endpoint_fallback_witness:
  "fetchLLCWithRetry deadPlatform demoIP [demoEndpoint, backupEndpoint] tenSeconds 1 startState =
     lookupSpec deadPlatform demoIP tenSeconds 1 [demoEndpoint, backupEndpoint] 0 None startState
   \<and> fst (fetchLLCWithRetry deadPlatform demoIP [demoEndpoint, backupEndpoint] tenSeconds 1
            startState) =
       ([], Some (Errorf_w msgAllFailed
                    (Some (Errorf_w msgHTTP (Some (dialTimeout (backupEndpoint @ demoIP)))))))
   \<and> gets (snd (fetchLLCWithRetry deadPlatform demoIP [demoEndpoint, backupEndpoint] tenSeconds 1
            startState)) = 4"
proof -
  have run: "fetchLLCWithRetry deadPlatform demoIP [demoEndpoint, backupEndpoint] tenSeconds 1
            startState =
     (([], Some (Errorf_w msgAllFailed
                    (Some (Errorf_w msgHTTP (Some (dialTimeout (backupEndpoint @ demoIP))))))),
      \<lparr>gets = 4,
       trace = [HttpGet (demoEndpoint @ demoIP), Sleep (backoffDuration 0),
                HttpGet (demoEndpoint @ demoIP),
                HttpGet (backupEndpoint @ demoIP), Sleep (backoffDuration 0),
                HttpGet (backupEndpoint @ demoIP)]\<rparr>)"
    by (simp add: fetchLLCWithRetry_def attemptLoop.simps queryLLCFromAPI_def isRetryable_def
        Errorf_w_def msgHTTP_def platform_defs input_defs)
  have eq: "fetchLLCWithRetry deadPlatform demoIP [demoEndpoint, backupEndpoint] tenSeconds 1
        startState =
     lookupSpec deadPlatform demoIP tenSeconds 1 [demoEndpoint, backupEndpoint] 0 None startState"
    using endpoint_fallback [where P = deadPlatform and ip = demoIP
        and apiList = "[demoEndpoint, backupEndpoint]" and timeout = tenSeconds
        and maxRetries = 1 and s = startState]
    by simp
  have res: "fst (fetchLLCWithRetry deadPlatform demoIP [demoEndpoint, backupEndpoint] tenSeconds 1
            startState) =
       ([], Some (Errorf_w msgAllFailed
                    (Some (Errorf_w msgHTTP (Some (dialTimeout (backupEndpoint @ demoIP)))))))"
    by (simp add: run)
  have cnt: "gets (snd (fetchLLCWithRetry deadPlatform demoIP [demoEndpoint, backupEndpoint]
            tenSeconds 1 startState)) = 4"
    by (simp add: run)
  from eq res cnt show ?thesis by (intro conjI)
qed

text \<open>
  Claim C6 as stated fails on the backoff: with two endpoints that always time out and
  \<open>maxRetries = 1\<close>, the sleep after the first attempt on the second endpoint is
  \<open>backoffDuration 0\<close>, one second, as it was on the first endpoint: the exponent has
  restarted from zero.
\<close>

theorem backoff_restarts_counterexample:
  "trace (snd (fetchLLCWithRetry deadPlatform demoIP [demoEndpoint, backupEndpoint] tenSeconds 1
            startState)) =
     [HttpGet (demoEndpoint @ demoIP), Sleep (backoffDuration 0), HttpGet (demoEndpoint @ demoIP),
      HttpGet (backupEndpoint @ demoIP), Sleep (backoffDuration 0),
      HttpGet (backupEndpoint @ demoIP)]
   \<and> sint (backoffDuration 0) = 1000000000"
  by (simp add: fetchLLCWithRetry_def attemptLoop.simps queryLLCFromAPI_def isRetryable_def
      Errorf_w_def msgHTTP_def platform_defs input_defs backoffDuration_def Second_def)

section \<open>The task of one domain\<close>

lemma fetchLLCWithRetry_inv:
  "fetchLLCWithRetry P ip apiList timeout maxRetries s = ((llc, err), s') \<Longrightarrow>
     (err = None \<and> llc \<noteq> []) \<or> (err \<noteq> None \<and> llc = [])"
  unfolding fetchLLCWithRetry_def by (rule endpointLoop_inv)

lemma lookupLoop_inv:
  "\<forall>r \<in> set ipResults. labelXorFailure r \<Longrightarrow>
   \<forall>r \<in> set (fst (lookupLoop P opts ips ipResults s)). labelXorFailure r"
proof (induction ips arbitrary: ipResults s)
  case Nil
  then show ?case by simp
next
  case (Cons ip ips)
  let ?s1 = "if optLimiter opts then s\<lparr>trace := trace s @ [LimiterWait]\<rparr> else s"
  obtain llc err s2 where
    f: "fetchLLCWithRetry P ip (optApiList opts) (optTimeout opts) (optMaxRetries opts) ?s1 =
          ((llc, err), s2)"
    by (metis prod.exhaust)
  from fetchLLCWithRetry_inv [OF f]
  have "labelXorFailure \<lparr>IP = ip, ActualLLC = llc, Error = err\<rparr>"
    by (simp add: labelXorFailure_def)
  with Cons.prems have "\<forall>r \<in> set (ipResults @ [\<lparr>IP = ip, ActualLLC = llc, Error = err\<rparr>]).
      labelXorFailure r"
    by simp
  from Cons.IH [OF this, of s2] f show ?case
    by (simp add: Let_def)
qed

lemma lookupLoop_ips:
  "map IP (fst (lookupLoop P opts ips ipResults s)) = map IP ipResults @ ips"
proof (induction ips arbitrary: ipResults s)
  case Nil
  then show ?case by simp
next
  case (Cons ip ips)
  then show ?case by (simp add: Let_def split: prod.splits)
qed

lemma checkDomain_inv:
  "\<forall>r \<in> set (IPResults (fst (checkDomain P opts dc s))). labelXorFailure r"
proof (cases "LookupIP P (Name dc) (optTimeout opts)")
  case (Inl err)
  then show ?thesis by (simp add: checkDomain_def)
next
  case (Inr ips)
  show ?thesis
  proof (cases "length ips = 0")
    case True
    with Inr show ?thesis by (simp add: checkDomain_def)
  next
    case False
    have "\<forall>r \<in> set (fst (lookupLoop P opts ips [] s)). labelXorFailure r"
      by (rule lookupLoop_inv) simp
    with Inr False show ?thesis
      by (simp add: checkDomain_def aggregateDomainResult_def Let_def split: prod.splits)
  qed
qed

lemma runDomains_all:
  assumes "\<And>dc s. Q (fst (checkDomain P opts dc s))"
  shows "\<forall>res \<in> set domainResults. Q res \<Longrightarrow>
         \<forall>res \<in> set (fst (runDomains P opts dcs domainResults s)). Q res"
proof (induction dcs arbitrary: domainResults s)
  case Nil
  then show ?case by simp
next
  case (Cons dc dcs)
  obtain res s1 where c: "checkDomain P opts dc s = (res, s1)"
    by (metis prod.exhaust)
  then have "Q res" using assms [of dc s] by simp
  with Cons.prems have "\<forall>r \<in> set (domainResults @ [res]). Q r" by simp
  from Cons.IH [OF this, of s1] c show ?case by simp
qed

text \<open>
  Claim C9. Every IP result of every domain result that a run produces has exactly one
  of its label and its error set: either the lookup succeeded, the error is \<open>nil\<close> and
  the label is a non-empty string, or the lookup failed, the error is present and the
  label is empty. In particular no lookup returns success with an empty label. This
  holds on every platform, whatever the resolver, the endpoints and the decoder return.
\<close>

theorem ip_result_label_xor_failure:
  "\<forall>res \<in> set (fst (runDomains P opts domains [] s)). \<forall>r \<in> set (IPResults res).
     (Error r = None \<and> ActualLLC r \<noteq> []) \<or> (Error r \<noteq> None \<and> ActualLLC r = [])"
proof -
  have "\<forall>res \<in> set (fst (runDomains P opts domains [] s)).
          \<forall>r \<in> set (IPResults res). labelXorFailure r"
    by (rule runDomains_all) (simp_all add: checkDomain_inv)
  then show ?thesis by (simp add: labelXorFailure_def)
qed

lemmas lookup_defs = fetchLLCWithRetry_def attemptLoop.simps queryLLCFromAPI_def isRetryable_def
  Errorf_w_def extractLLC_def possibleKeys_def msgHTTP_def msgStatus_def formatInt_def
  digits.simps decimalDigits_def

theorem ip_result_label_xor_failure_witness:
  "map (\<lambda>r. (IP r, ActualLLC r, Error r = None))
     (IPResults (hd (fst (runDomains outagePlatform demoOptions
        [\<lparr>Name = ''two.example'', ExpectedLlcs = [''AMAZON'']\<rparr>] [] startState))))
   = [(demoIP, [], False), (secondIP, ''AMAZON-02'', True)]"
  using ip_result_label_xor_failure [of outagePlatform demoOptions
      "[\<lparr>Name = ''two.example'', ExpectedLlcs = [''AMAZON'']\<rparr>]" startState]
  by (simp add: checkDomain_def lookup_defs platform_defs input_defs
      aggregateDomainResult_def Let_def)

section \<open>Rate limiting\<close>

text \<open>
  Claim C3 against the code. \<open>main\<close> waits on the limiter once for each address,
  before it calls \<open>fetchLLCWithRetry\<close>; the lookup itself never waits on it. With the
  limiter configured, a lookup whose first endpoint answers 500 issues its request to
  the second endpoint right after the first one, and a lookup that retries an endpoint
  issues each retry after a sleep only: in both runs only the first request is preceded
  by a wait on the limiter.
\<close>

theorem retries_bypass_limiter:
  "optLimiter demoOptions
   \<and> trace (snd (lookupLoop failoverPlatform demoOptions [demoIP] [] startState)) =
       [LimiterWait, HttpGet (demoEndpoint @ demoIP), HttpGet (backupEndpoint @ demoIP)]
   \<and> trace (snd (lookupLoop flakyPlatform demoOptions [demoIP] [] startState)) =
       [LimiterWait, HttpGet (demoEndpoint @ demoIP), Sleep Second,
        HttpGet (demoEndpoint @ demoIP), Sleep (2 * Second), HttpGet (demoEndpoint @ demoIP)]"
  by (simp add: lookup_defs platform_defs input_defs backoffDuration_def Let_def)

section \<open>Resolution failures\<close>

lemma runDomains_acc:
  "runDomains P opts dcs domainResults s =
     (domainResults @ fst (runDomains P opts dcs [] s), snd (runDomains P opts dcs [] s))"
proof (induction dcs arbitrary: domainResults s)
  case Nil
  then show ?case by simp
next
  case (Cons dc dcs)
  obtain res s1 where c: "checkDomain P opts dc s = (res, s1)"
    by (metis prod.exhaust)
  show ?case
    using Cons.IH [of "domainResults @ [res]" s1] Cons.IH [of "[res]" s1] c by simp
qed

lemma runDomains_append:
  "runDomains P opts (dcs1 @ dcs2) [] s =
     (fst (runDomains P opts dcs1 [] s) @
        fst (runDomains P opts dcs2 [] (snd (runDomains P opts dcs1 [] s))),
      snd (runDomains P opts dcs2 [] (snd (runDomains P opts dcs1 [] s))))"
proof (induction dcs1 arbitrary: s)
  case Nil
  then show ?case by simp
next
  case (Cons dc dcs1)
  obtain res s1 where c: "checkDomain P opts dc s = (res, s1)"
    by (metis prod.exhaust)
  show ?case
    using c Cons.IH [of s1]
      runDomains_acc [of P opts "dcs1 @ dcs2" "[res]" s1]
      runDomains_acc [of P opts dcs1 "[res]" s1]
    by simp
qed

lemma runDomains_length:
  "length (fst (runDomains P opts dcs domainResults s)) = length domainResults + length dcs"
proof (induction dcs arbitrary: domainResults s)
  case Nil
  then show ?case by simp
next
  case (Cons dc dcs)
  then show ?case by (simp split: prod.splits)
qed

lemma checkDomain_unresolved:
  assumes "LookupIP P (Name dc) (optTimeout opts) = Inl err
           \<or> LookupIP P (Name dc) (optTimeout opts) = Inr []"
  shows "checkDomain P opts dc s =
     (\<lparr>DomainName = Name dc, Expected = ExpectedLlcs dc, IPResults = [], IsPolluted = True,
       Summary = (case LookupIP P (Name dc) (optTimeout opts) of
                    Inl e \<Rightarrow> msgDNS @ ErrorText e | Inr ips \<Rightarrow> msgNoIPv4)\<rparr>, s)"
  using assms by (auto simp: checkDomain_def)

text \<open>
  Claim C8. When the resolution of a domain fails, or yields no address, the task of
  that domain produces a result with \<open>IsPolluted = True\<close>, no IP result and a non-empty
  summary (the resolution-failure message followed by the resolver's error, or the
  no-IPv4-address message), and it issues no request and changes nothing else. The
  failure is data in that result: a run over a configuration that contains the domain
  still yields one result for every domain, and the results of all other domains, and
  the final state, are exactly those of the run without that domain; the polluted
  result stands at the domain's place. (Domain tasks are taken one after the other.)
\<close>

theorem resolution_failure_polluted:
  assumes "LookupIP P (Name dc) (optTimeout opts) = Inl err
           \<or> LookupIP P (Name dc) (optTimeout opts) = Inr []"
  shows "checkDomain P opts dc s =
     (\<lparr>DomainName = Name dc, Expected = ExpectedLlcs dc, IPResults = [], IsPolluted = True,
       Summary = (case LookupIP P (Name dc) (optTimeout opts) of
                    Inl e \<Rightarrow> msgDNS @ ErrorText e | Inr ips \<Rightarrow> msgNoIPv4)\<rparr>, s)
     \<and> msgDNS \<noteq> [] \<and> msgNoIPv4 \<noteq> []
     \<and> length (fst (runDomains P opts (before @ dc # after) [] s)) = length (before @ dc # after)
     \<and> runDomains P opts (before @ dc # after) [] s =
         (fst (runDomains P opts before [] s)
            @ fst (checkDomain P opts dc (snd (runDomains P opts before [] s)))
            # fst (runDomains P opts after [] (snd (runDomains P opts before [] s))),
          snd (runDomains P opts after [] (snd (runDomains P opts before [] s))))
     \<and> runDomains P opts (before @ after) [] s =
         (fst (runDomains P opts before [] s)
            @ fst (runDomains P opts after [] (snd (runDomains P opts before [] s))),
          snd (runDomains P opts after [] (snd (runDomains P opts before [] s))))"
proof (intro conjI)
  show "checkDomain P opts dc s =
     (\<lparr>DomainName = Name dc, Expected = ExpectedLlcs dc, IPResults = [], IsPolluted = True,
       Summary = (case LookupIP P (Name dc) (optTimeout opts) of
                    Inl e \<Rightarrow> msgDNS @ ErrorText e | Inr ips \<Rightarrow> msgNoIPv4)\<rparr>, s)"
    by (rule checkDomain_unresolved [OF assms])
  show "msgDNS \<noteq> []" by (simp add: msgDNS_def)
  show "msgNoIPv4 \<noteq> []" by (simp add: msgNoIPv4_def)
  show "length (fst (runDomains P opts (before @ dc # after) [] s)) = length (before @ dc # after)"
    by (simp add: runDomains_length)
  let ?s1 = "snd (runDomains P opts before [] s)"
  have "runDomains P opts (dc # after) [] ?s1 =
      (fst (checkDomain P opts dc ?s1) # fst (runDomains P opts after [] ?s1),
       snd (runDomains P opts after [] ?s1))"
    using runDomains_acc [of P opts after "[fst (checkDomain P opts dc ?s1)]" ?s1]
    by (simp add: checkDomain_unresolved [OF assms])
  then show "runDomains P opts (before @ dc # after) [] s =
         (fst (runDomains P opts before [] s)
            @ fst (checkDomain P opts dc ?s1)
            # fst (runDomains P opts after [] ?s1),
          snd (runDomains P opts after [] ?s1))"
    by (simp add: runDomains_append [of P opts before "dc # after"])
  show "runDomains P opts (before @ after) [] s =
         (fst (runDomains P opts before [] s) @ fst (runDomains P opts after [] ?s1),
          snd (runDomains P opts after [] ?s1))"
    by (rule runDomains_append)
qed

theorem resolution_failure_polluted_witness:
  "fst (runDomains healthyPlatform demoOptions [configB, configA] [] startState) =
     [\<lparr>DomainName = ''b.example'', Expected = [''GOOGLE''], IPResults = [], IsPolluted = True,
       Summary = msgDNS @ ''lookup b.example: no such host''\<rparr>,
      \<lparr>DomainName = ''a.example'', Expected = [''AMAZON''],
       IPResults = [\<lparr>IP = demoIP, ActualLLC = ''AMAZON-02'', Error = None\<rparr>],
       IsPolluted = False, Summary = summaryLenientClean\<rparr>]
   \<and> fst (runDomains healthyPlatform demoOptions [configA] [] startState) =
     [\<lparr>DomainName = ''a.example'', Expected = [''AMAZON''],
       IPResults = [\<lparr>IP = demoIP, ActualLLC = ''AMAZON-02'', Error = None\<rparr>],
       IsPolluted = False, Summary = summaryLenientClean\<rparr>]"
proof -
  have "LookupIP healthyPlatform (Name configB) (optTimeout demoOptions) =
          Inl (GoError ''lookup b.example: no such host'' None)
        \<or> LookupIP healthyPlatform (Name configB) (optTimeout demoOptions) = Inr []"
    by (simp add: platform_defs configB_def)
  from resolution_failure_polluted [OF this, of startState "[]" "[configA]"]
  show ?thesis
    by (simp add: checkDomain_def lookup_defs platform_defs input_defs configA_def configB_def
      aggregateDomainResult_def aggregateVars_def Let_def)
qed

section \<open>The run summary\<close>

lemma bitLength_le: "n < 2 ^ k \<Longrightarrow> bitLength n \<le> k"
proof (induction k arbitrary: n)
  case 0
  then show ?case by (subst bitLength.simps) simp
next
  case (Suc k)
  show ?case
  proof (cases "n = 0")
    case True
    then show ?thesis by (subst bitLength.simps) simp
  next
    case False
    from Suc.prems have "n div 2 < 2 ^ k" by simp
    from Suc.IH [OF this] False show ?thesis by (subst bitLength.simps) simp
  qed
qed

lemma bitLength_pos: "0 < n \<Longrightarrow> 0 < bitLength n"
  by (subst bitLength.simps) simp

lemma roundHalfEven_of_int [simp]: "roundHalfEven (of_int z) = z"
  by (simp add: roundHalfEven_def)

lemma float64_of_nat_exact:
  assumes "n < 2 ^ 53"
  shows "float64 (of_nat n) = of_nat n"
proof (cases "n = 0")
  case True
  then show ?thesis by (simp add: float64_def)
next
  case False
  define L where "L = bitLength n"
  have L: "0 < L" "L \<le> 53"
    using False assms by (simp_all add: L_def bitLength_pos bitLength_le)
  have x: "(1::rat) \<le> of_nat n" using False by simp
  have fl: "floorLog2 (of_nat n) = int L - 1"
    using x by (simp add: floorLog2_def L_def)
  define d where "d = 53 - L"
  have e: "floorLog2 (of_nat n) - 52 = - int d" using L by (simp add: d_def fl)
  have p: "pow2 (- int d) = 1 / 2 ^ d"
    by (cases "d = 0") (simp_all add: pow2_def)
  have "of_nat n / pow2 (- int d) = (of_int (int n * 2 ^ d) :: rat)"
    by (simp add: p)
  then have r: "roundHalfEven (of_nat n / pow2 (- int d)) = int n * 2 ^ d"
    by (simp only: roundHalfEven_of_int)
  have "float64 (of_nat n) =
      of_int (roundHalfEven (of_nat n / pow2 (- int d))) * pow2 (- int d)"
    using False by (simp add: float64_def Let_def e)
  also have "\<dots> = of_nat n"
    unfolding r by (simp add: p)
  finally show ?thesis .
qed

lemma countPolluted_eq:
  "countPolluted results polluted = polluted + int (length (filter IsPolluted results))"
  by (induction results arbitrary: polluted) simp_all

lemma levels_distinct:
  "levelNormal \<noteq> levelMild" "levelNormal \<noteq> levelModerate" "levelNormal \<noteq> levelSevere"
  "levelMild \<noteq> levelModerate" "levelMild \<noteq> levelSevere" "levelModerate \<noteq> levelSevere"
  by (simp_all add: levelNormal_def levelMild_def levelModerate_def levelSevere_def)

lemma pollutionLevel_iff:
  "(pollutionLevel rate = levelNormal \<longleftrightarrow> rate < 20)"
  "(pollutionLevel rate = levelMild \<longleftrightarrow> 20 \<le> rate \<and> rate < 40)"
  "(pollutionLevel rate = levelModerate \<longleftrightarrow> 40 \<le> rate \<and> rate < 60)"
  "(pollutionLevel rate = levelSevere \<longleftrightarrow> 60 \<le> rate)"
  using levels_distinct by (auto simp: pollutionLevel_def)

text \<open>
  Claim C7. For every list of domain results the summary has: the total, the number of
  polluted results, the rate \<open>float64(polluted) / float64(total) * 100\<close> when the total
  is positive (in \<open>float64\<close> arithmetic, each operation rounded to the nearest value;
  the conversions of counts below \<open>2^53\<close> are exact) and 0 when it is zero, and the
  level chosen by the thresholds, each lower bound included and each upper bound
  excluded: Normal iff rate < 20, Mild iff 20 \<le> rate < 40, Moderate iff
  40 \<le> rate < 60, Severe iff rate \<ge> 60. A run over no domain reports rate 0 and
  level Normal.
\<close>

theorem run_summary:
  "statTotal (buildReportStats results) = int (length results)
   \<and> statPolluted (buildReportStats results) = int (length (filter IsPolluted results))
   \<and> statRate (buildReportStats results) =
       (if length results > 0
        then float64 (float64 (float64 (of_nat (length (filter IsPolluted results)))
                                 / float64 (of_nat (length results))) * 100)
        else 0)
   \<and> (0 < length results \<and> length results < 2 ^ 53 \<longrightarrow>
        statRate (buildReportStats results) =
          float64 (float64 (of_nat (length (filter IsPolluted results)) / of_nat (length results))
                   * 100))
   \<and> statLevel (buildReportStats results) = pollutionLevel (statRate (buildReportStats results))
   \<and> (statLevel (buildReportStats results) = levelNormal
        \<longleftrightarrow> statRate (buildReportStats results) < 20)
   \<and> (statLevel (buildReportStats results) = levelMild
        \<longleftrightarrow> 20 \<le> statRate (buildReportStats results) \<and> statRate (buildReportStats results) < 40)
   \<and> (statLevel (buildReportStats results) = levelModerate
        \<longleftrightarrow> 40 \<le> statRate (buildReportStats results) \<and> statRate (buildReportStats results) < 60)
   \<and> (statLevel (buildReportStats results) = levelSevere
        \<longleftrightarrow> 60 \<le> statRate (buildReportStats results))
   \<and> statRate (buildReportStats []) = 0 \<and> statLevel (buildReportStats []) = levelNormal"
proof -
  have l: "statLevel (buildReportStats results) = pollutionLevel (statRate (buildReportStats results))"
    by (simp add: buildReportStats_def Let_def)
  have e: "statRate (buildReportStats []) = 0" "statLevel (buildReportStats []) = levelNormal"
    by (simp_all add: buildReportStats_def pollutionLevel_def)
  have x: "float64 (of_nat (length (filter IsPolluted results))) =
             of_nat (length (filter IsPolluted results))"
          "float64 (of_nat (length results)) = of_nat (length results)"
    if "length results < 2 ^ 53"
  proof -
    have "length (filter IsPolluted results) \<le> length results" by simp
    then have "length (filter IsPolluted results) < 2 ^ 53"
      using that by (rule le_less_trans)
    then show "float64 (of_nat (length (filter IsPolluted results))) =
             of_nat (length (filter IsPolluted results))"
      by (rule float64_of_nat_exact)
    from that show "float64 (of_nat (length results)) = of_nat (length results)"
      by (rule float64_of_nat_exact)
  qed
  show ?thesis
    unfolding l pollutionLevel_iff
    by (simp add: buildReportStats_def Let_def countPolluted_eq e pollutionLevel_iff x)
qed

lemma float_half: "float64 (float64 (float64 1 / float64 2) * 100) = 50"
  by code_simp

lemma float_fifth: "float64 (float64 (float64 1 / float64 5) * 100) = 20"
  by code_simp

lemma float_7_25: "float64 (float64 (float64 7 / float64 25) * 100) = 7881299347898369 / 281474976710656"
  by code_simp

theorem run_summary_witness:
  "buildReportStats
     [\<lparr>DomainName = ''b.example'', Expected = [''GOOGLE''], IPResults = [], IsPolluted = True,
       Summary = msgDNS @ ''lookup b.example: no such host''\<rparr>,
      \<lparr>DomainName = ''a.example'', Expected = [''AMAZON''],
       IPResults = [\<lparr>IP = demoIP, ActualLLC = ''AMAZON-02'', Error = None\<rparr>],
       IsPolluted = False, Summary = summaryLenientClean\<rparr>]
   = \<lparr>statTotal = 2, statPolluted = 1, statRate = 50, statLevel = levelModerate\<rparr>"
  using run_summary [of
     "[\<lparr>DomainName = ''b.example'', Expected = [''GOOGLE''], IPResults = [], IsPolluted = True,
       Summary = msgDNS @ ''lookup b.example: no such host''\<rparr>,
      \<lparr>DomainName = ''a.example'', Expected = [''AMAZON''],
       IPResults = [\<lparr>IP = demoIP, ActualLLC = ''AMAZON-02'', Error = None\<rparr>],
       IsPolluted = False, Summary = summaryLenientClean\<rparr>]"]
  by (simp add: buildReportStats_def float_half pollutionLevel_def)

end
